theory Spec2Isabelle
  imports Complex_Main
begin

section \<open>JavaScript numbers\<close>

text \<open>
  Sizes, offsets and byte counts are non-negative integers below \<open>2^53\<close> and are
  modelled as \<open>nat\<close>. Progress values are JavaScript numbers: exact reals (rounding
  is not modelled) together with the three special values a division by zero produces.
\<close>

datatype jsnum = Fin real | PInf | NInf | NaN

text \<open>\<open>a / b\<close> for two finite operands.\<close>

definition js_div :: "real \<Rightarrow> real \<Rightarrow> jsnum" where
  "js_div a b =
     (if b \<noteq> 0 then Fin (a / b)
      else if a = 0 then NaN
      else if 0 < a then PInf else NInf)"

text \<open>\<open>x * y\<close>.\<close>

fun js_mul :: "jsnum \<Rightarrow> jsnum \<Rightarrow> jsnum" where
  "js_mul NaN _ = NaN"
| "js_mul _ NaN = NaN"
| "js_mul (Fin a) (Fin b) = Fin (a * b)"
| "js_mul (Fin a) PInf = (if a = 0 then NaN else if 0 < a then PInf else NInf)"
| "js_mul (Fin a) NInf = (if a = 0 then NaN else if 0 < a then NInf else PInf)"
| "js_mul PInf (Fin b) = (if b = 0 then NaN else if 0 < b then PInf else NInf)"
| "js_mul NInf (Fin b) = (if b = 0 then NaN else if 0 < b then NInf else PInf)"
| "js_mul PInf PInf = PInf"
| "js_mul PInf NInf = NInf"
| "js_mul NInf PInf = NInf"
| "js_mul NInf NInf = PInf"

text \<open>\<open>x + y\<close>.\<close>

fun js_add :: "jsnum \<Rightarrow> jsnum \<Rightarrow> jsnum" where
  "js_add NaN _ = NaN"
| "js_add _ NaN = NaN"
| "js_add (Fin a) (Fin b) = Fin (a + b)"
| "js_add (Fin a) PInf = PInf"
| "js_add (Fin a) NInf = NInf"
| "js_add PInf (Fin b) = PInf"
| "js_add NInf (Fin b) = NInf"
| "js_add PInf PInf = PInf"
| "js_add PInf NInf = NaN"
| "js_add NInf PInf = NaN"
| "js_add NInf NInf = NInf"

text \<open>\<open>x > y\<close>: false as soon as one side is \<open>NaN\<close>.\<close>

fun js_gt :: "jsnum \<Rightarrow> jsnum \<Rightarrow> bool" where
  "js_gt NaN _ = False"
| "js_gt _ NaN = False"
| "js_gt (Fin a) (Fin b) = (b < a)"
| "js_gt (Fin a) PInf = False"
| "js_gt (Fin a) NInf = True"
| "js_gt PInf (Fin b) = True"
| "js_gt NInf (Fin b) = False"
| "js_gt PInf PInf = False"
| "js_gt PInf NInf = True"
| "js_gt NInf PInf = False"
| "js_gt NInf NInf = False"

text \<open>\<open>Math.max(x, y)\<close>: \<open>NaN\<close> as soon as one argument is \<open>NaN\<close>.\<close>

fun js_max :: "jsnum \<Rightarrow> jsnum \<Rightarrow> jsnum" where
  "js_max NaN _ = NaN"
| "js_max _ NaN = NaN"
| "js_max x y = (if js_gt y x then y else x)"

section \<open>ResumableChunk\<close>

datatype ResumableChunkStatus = PENDING | UPLOADING | SUCCESS | ERROR

text \<open>
  The part of an \<open>XMLHttpRequest\<close> the chunk reads: \<open>readyState\<close> (4 is DONE),
  the HTTP \<open>status\<close> (0 as long as there is none, and after a network error or a
  timeout) and \<open>responseText\<close>. \<open>isTest\<close> records which listener the chunk attached:
  \<open>testHandler\<close> (set up by \<open>test()\<close>) or \<open>doneHandler\<close> (set up by \<open>send()\<close>).
\<close>

record xhr =
  readyState :: nat
  xhrStatus :: nat
  responseText :: string
  isTest :: bool

text \<open>The options of the configuration object that the modelled code reads.\<close>

record options =
  chunkSize :: nat
  testChunks :: bool
  maxChunkRetries :: nat
  chunkRetryInterval :: "nat option"
  permanentErrors :: "nat list"

record chunk =
  offset :: nat
  fileObjSize :: nat
  startByte :: nat
  endByte :: nat
  tested :: bool
  retries :: nat
  pendingRetry :: bool
  isMarkedComplete :: bool
  loaded :: nat
  xhr :: "xhr option"

text \<open>The constructor: \<open>new ResumableChunk(fileObj, offset, options)\<close>.\<close>

definition new_chunk :: "options \<Rightarrow> nat \<Rightarrow> nat \<Rightarrow> chunk" where
  "new_chunk opts fsize off =
     \<lparr> offset = off,
       fileObjSize = fsize,
       startByte = off * chunkSize opts,
       endByte = min fsize ((off + 1) * chunkSize opts),
       tested = False,
       retries = 0,
       pendingRetry = False,
       isMarkedComplete = False,
       loaded = 0,
       xhr = None \<rparr>"

text \<open>\<open>abort()\<close>: abort the request, if any, and drop the handle.\<close>

definition chunk_abort :: "chunk \<Rightarrow> chunk" where
  "chunk_abort c = c\<lparr>xhr := None\<rparr>"

text \<open>
  The getter \<open>status\<close>. Its last branch calls \<open>abort()\<close>, so the getter returns the
  status together with the chunk as it leaves it.
\<close>

definition status :: "options \<Rightarrow> chunk \<Rightarrow> ResumableChunkStatus \<times> chunk" where
  "status opts c =
     (if pendingRetry c then (UPLOADING, c)
      else if isMarkedComplete c then (SUCCESS, c)
      else case xhr c of
        None \<Rightarrow> (PENDING, c)
      | Some x \<Rightarrow>
          if readyState x < 4 then (UPLOADING, c)
          else if xhrStatus x = 200 \<or> xhrStatus x = 201 then (SUCCESS, c)
          else if xhrStatus x \<in> set (permanentErrors opts) \<or> maxChunkRetries opts \<le> retries c
            then (ERROR, c)
          else (PENDING, chunk_abort c))"

text \<open>\<open>message()\<close>.\<close>

definition message :: "chunk \<Rightarrow> string" where
  "message c = (case xhr c of None \<Rightarrow> [] | Some x \<Rightarrow> responseText x)"

text \<open>\<open>progress(relative)\<close>; it reads \<open>status\<close>, so it returns the chunk as well.\<close>

definition chunk_progress :: "options \<Rightarrow> bool \<Rightarrow> chunk \<Rightarrow> jsnum \<times> chunk" where
  "chunk_progress opts relative c =
     (let factor = (if relative
                    then js_div (real (endByte c) - real (startByte c)) (real (fileObjSize c))
                    else Fin 1)
      in if pendingRetry c then (Fin 0, c)
         else
           let factor' = (if (case xhr c of None \<Rightarrow> True | Some x \<Rightarrow> xhrStatus x = 0)
                               \<and> \<not> isMarkedComplete c
                          then js_mul factor (Fin (95 / 100)) else factor);
               (s, c') = status opts c
           in case s of
                SUCCESS \<Rightarrow> (factor', c')
              | ERROR \<Rightarrow> (factor', c')
              | PENDING \<Rightarrow> (Fin 0, c')
              | UPLOADING \<Rightarrow>
                  (js_mul (js_div (real (loaded c')) (real (endByte c') - real (startByte c')))
                          factor', c'))"

text \<open>\<open>markComplete()\<close>.\<close>

definition markComplete :: "chunk \<Rightarrow> chunk" where
  "markComplete c = c\<lparr>isMarkedComplete := True\<rparr>"

section \<open>ResumableFile\<close>

text \<open>
  The events a file fires, in the order of the calls of \<open>fire\<close>. A chunk is named by its
  offset; the string is the message (the response text of the chunk's request). The
  model of a file is the file with the handlers that \<open>bootstrap()\<close> attaches to its
  chunks; what the listeners of the scheduler or of the application do when the file
  fires is not part of it.
\<close>

datatype file_event =
    ChunkingStart
  | ChunkingProgress real
  | ChunkingComplete
  | ChunkProgress nat string
  | ChunkError nat string
  | ChunkSuccess nat string
  | ChunkRetry nat string
  | ChunkCancel nat
  | FileProgress "string option"
  | FileSuccess string
  | FileError string
  | FileRetry "string option"
  | FileCancel

text \<open>
  \<open>armedRetryListeners\<close> counts the \<open>chunkingComplete\<close> listeners that \<open>retry()\<close> has
  registered and that have not fired yet (each fires \<open>fileRetry\<close> once).
\<close>

record resumableFile =
  opts :: options
  prevProgress :: jsnum
  isPaused :: bool
  fileName :: string
  fileSize :: nat
  uniqueIdentifier :: string
  fileCategory :: string
  error :: bool
  chunks :: "chunk list"
  events :: "file_event list"
  armedRetryListeners :: nat

definition fire :: "file_event \<Rightarrow> resumableFile \<Rightarrow> resumableFile" where
  "fire e f = f\<lparr>events := events f @ [e]\<rparr>"

text \<open>The loop of \<open>abort()\<close>: the chunks as it leaves them, and \<open>abortCount\<close>.\<close>

fun abort_loop :: "options \<Rightarrow> chunk list \<Rightarrow> chunk list \<times> nat" where
  "abort_loop os [] = ([], 0)"
| "abort_loop os (c # cs) =
     (let (s, c') = status os c;
          (cs', n) = abort_loop os cs
      in if s = UPLOADING then (chunk_abort c' # cs', Suc n) else (c' # cs', n))"

definition file_abort :: "resumableFile \<Rightarrow> resumableFile" where
  "file_abort f =
     (let (cs, abortCount) = abort_loop (opts f) (chunks f);
          f' = f\<lparr>chunks := cs\<rparr>
      in if 0 < abortCount then fire (FileProgress None) f' else f')"

text \<open>The loop of \<open>cancel()\<close>: the offsets of the chunks it aborts, in order.\<close>

fun cancel_loop :: "options \<Rightarrow> chunk list \<Rightarrow> nat list" where
  "cancel_loop os [] = []"
| "cancel_loop os (c # cs) =
     (if fst (status os c) = UPLOADING then offset c # cancel_loop os cs
      else cancel_loop os cs)"

definition file_cancel :: "resumableFile \<Rightarrow> resumableFile" where
  "file_cancel f =
     (let f1 = foldl (\<lambda>g off. fire (ChunkCancel off) g) f (cancel_loop (opts f) (chunks f));
          f2 = f1\<lparr>chunks := []\<rparr>
      in fire (FileProgress None) (fire FileCancel f2))"

text \<open>The handlers that \<open>bootstrap()\<close> attaches to every chunk.\<close>

definition progressHandler :: "string \<Rightarrow> nat \<Rightarrow> resumableFile \<Rightarrow> resumableFile" where
  "progressHandler msg off f = fire (FileProgress (Some msg)) (fire (ChunkProgress off msg) f)"

definition retryHandler :: "string \<Rightarrow> nat \<Rightarrow> resumableFile \<Rightarrow> resumableFile" where
  "retryHandler msg off f = fire (FileRetry (Some msg)) (fire (ChunkRetry off msg) f)"

text \<open>
  \<open>Array.prototype.some\<close> over the chunks with a test on the status: it stops at the
  first chunk that passes, having read the status of every chunk up to it.
\<close>

fun some_status :: "options \<Rightarrow> (ResumableChunkStatus \<Rightarrow> bool) \<Rightarrow> chunk list \<Rightarrow> bool \<times> chunk list" where
  "some_status os p [] = (False, [])"
| "some_status os p (c # cs) =
     (let (s, c') = status os c
      in if p s then (True, c' # cs)
         else let (b, cs') = some_status os p cs in (b, c' # cs'))"

definition isUploading :: "resumableFile \<Rightarrow> bool \<times> resumableFile" where
  "isUploading f =
     (let (b, cs) = some_status (opts f) (\<lambda>s. s = UPLOADING) (chunks f)
      in (b, f\<lparr>chunks := cs\<rparr>))"

definition isComplete :: "resumableFile \<Rightarrow> bool \<times> resumableFile" where
  "isComplete f =
     (let (b, cs) = some_status (opts f) (\<lambda>s. s = PENDING \<or> s = UPLOADING) (chunks f)
      in (\<not> b, f\<lparr>chunks := cs\<rparr>))"

definition successHandler :: "string \<Rightarrow> nat \<Rightarrow> resumableFile \<Rightarrow> resumableFile" where
  "successHandler msg off f =
     (if error f then f
      else
        let f1 = fire (FileProgress (Some msg)) (fire (ChunkSuccess off msg) f);
            (complete, f2) = isComplete f1
        in if complete then fire (FileSuccess msg) f2 else f2)"

definition errorHandler :: "string \<Rightarrow> nat \<Rightarrow> resumableFile \<Rightarrow> resumableFile" where
  "errorHandler msg off f =
     (let f1 = fire (ChunkError off msg) f;
          f2 = file_abort f1;
          f3 = f2\<lparr>error := True\<rparr>;
          f4 = f3\<lparr>chunks := []\<rparr>
      in fire (FileError msg) f4)"

text \<open>\<open>Math.ceil\<close>.\<close>

fun js_ceil :: "jsnum \<Rightarrow> jsnum" where
  "js_ceil (Fin x) = Fin (of_int \<lceil>x\<rceil>)"
| "js_ceil x = x"

definition maxOffset :: "resumableFile \<Rightarrow> jsnum" where
  "maxOffset f =
     js_max (js_ceil (js_div (real (fileSize f)) (real (chunkSize (opts f))))) (Fin 1)"

text \<open>One round of the loop of \<open>bootstrap()\<close>, for \<open>offset = off\<close>.\<close>

definition bootstrap_step :: "real \<Rightarrow> resumableFile \<Rightarrow> nat \<Rightarrow> resumableFile" where
  "bootstrap_step m f off =
     fire (ChunkingProgress (real off / m))
          (f\<lparr>chunks := chunks f @ [new_chunk (opts f) (fileSize f) off]\<rparr>)"

text \<open>The end of \<open>bootstrap()\<close>: \<open>chunkingComplete\<close> and the listeners of \<open>retry()\<close>.\<close>

definition chunkingComplete :: "resumableFile \<Rightarrow> resumableFile" where
  "chunkingComplete f =
     (let f1 = fire ChunkingComplete f;
          f2 = foldl (\<lambda>g _. fire (FileRetry None) g) f1 [0..<armedRetryListeners f1]
      in f2\<lparr>armedRetryListeners := 0\<rparr>)"

text \<open>
  \<open>bootstrap()\<close>. With a chunk size of 0 and a file that is not empty, \<open>maxOffset\<close> is
  \<open>Infinity\<close> and the loop does not end: the result is \<open>None\<close>. With a chunk size of 0
  and an empty file it is \<open>NaN\<close>, and the loop is not entered.
\<close>

definition bootstrap :: "resumableFile \<Rightarrow> resumableFile option" where
  "bootstrap f =
     (let f1 = file_abort f;
          f2 = f1\<lparr>error := False\<rparr>;
          f3 = f2\<lparr>chunks := []\<rparr>;
          f4 = f3\<lparr>prevProgress := Fin 0\<rparr>
      in case maxOffset f4 of
           Fin m \<Rightarrow> Some (chunkingComplete (foldl (bootstrap_step m) f4 [0..<nat \<lceil>m\<rceil>]))
         | PInf \<Rightarrow> None
         | _ \<Rightarrow> Some (chunkingComplete f4))"

text \<open>\<open>retry()\<close>.\<close>

definition retry :: "resumableFile \<Rightarrow> resumableFile option" where
  "retry f =
     (case bootstrap f of
        None \<Rightarrow> None
      | Some f1 \<Rightarrow> Some (f1\<lparr>armedRetryListeners := Suc (armedRetryListeners f1)\<rparr>))"

text \<open>
  The constructor \<open>new ResumableFile(file, uniqueIdentifier, fileCategory, options)\<close>,
  for a file handle with the given name and size.
\<close>

definition new_file :: "options \<Rightarrow> string \<Rightarrow> nat \<Rightarrow> string \<Rightarrow> string \<Rightarrow> resumableFile option" where
  "new_file os nm sz uid cat =
     bootstrap (fire ChunkingStart
       \<lparr> opts = os, prevProgress = Fin 0, isPaused = False, fileName = nm, fileSize = sz,
         uniqueIdentifier = uid, fileCategory = cat, error = True, chunks = [],
         events = [], armedRetryListeners = 0 \<rparr>)"

text \<open>The loop of \<open>progress()\<close>: \<open>ret\<close>, \<open>error\<close> and the chunks as it leaves them.\<close>

fun progress_loop :: "options \<Rightarrow> chunk list \<Rightarrow> jsnum \<Rightarrow> bool \<Rightarrow> jsnum \<times> bool \<times> chunk list" where
  "progress_loop os [] ret err = (ret, err, [])"
| "progress_loop os (c # cs) ret err =
     (let (s, c1) = status os c;
          err' = (if s = ERROR then True else err);
          (p, c2) = chunk_progress os True c1;
          (r, e, cs') = progress_loop os cs (js_add ret p) err'
      in (r, e, c2 # cs'))"

text \<open>
  The value that \<open>progress()\<close> computes afresh from the chunks, before it compares it
  with \<open>_prevProgress\<close>, and the chunks as the loop leaves them.
\<close>

definition aggregate :: "resumableFile \<Rightarrow> jsnum \<times> chunk list" where
  "aggregate f =
     (let (ret, err, cs) = progress_loop (opts f) (chunks f) (Fin 0) False
      in (if err then Fin 1 else if js_gt ret (Fin (99999 / 100000)) then Fin 1 else ret, cs))"

definition file_progress :: "resumableFile \<Rightarrow> jsnum \<times> resumableFile" where
  "file_progress f =
     (if error f then (Fin 1, f)
      else
        let (ret, cs) = aggregate f;
            ret' = js_max (prevProgress f) ret
        in (ret', f\<lparr>chunks := cs, prevProgress := ret'\<rparr>))"

text \<open>\<open>markChunksCompleted(chunkNumber)\<close>.\<close>

definition markChunksCompleted :: "nat \<Rightarrow> resumableFile \<Rightarrow> resumableFile" where
  "markChunksCompleted chunkNumber f =
     (if length (chunks f) \<le> chunkNumber then f
      else f\<lparr>chunks := foldl (\<lambda>cs num. cs[num := markComplete (cs ! num)]) (chunks f)
                           [0..<chunkNumber]\<rparr>)"

subsection \<open>Sending a chunk and the completion of its request\<close>

text \<open>A request after \<open>new XMLHttpRequest()\<close> and \<open>open\<close>: state OPENED, no status yet.\<close>

definition new_xhr :: "bool \<Rightarrow> xhr" where
  "new_xhr t = \<lparr> readyState = 1, xhrStatus = 0, responseText = [], isTest = t \<rparr>"

text \<open>
  \<open>send()\<close> of a chunk: the chunk as it leaves it and, when it fires \<open>chunkProgress\<close>,
  the message it fires it with. With \<open>testChunks\<close> set and the chunk not yet tested it
  only issues the test request (\<open>test()\<close>). The body of the request (with the default
  \<open>chunkFormat\<close> it is sent at once) is not modelled.
\<close>

definition chunk_send :: "options \<Rightarrow> chunk \<Rightarrow> chunk \<times> string option" where
  "chunk_send os c =
     (if testChunks os \<and> \<not> tested c then (c\<lparr>xhr := Some (new_xhr True)\<rparr>, None)
      else
        let c1 = c\<lparr>xhr := Some (new_xhr False)\<rparr>;
            c2 = c1\<lparr>loaded := 0\<rparr>;
            c3 = c2\<lparr>pendingRetry := False\<rparr>
        in (c3, Some (message c3)))"

text \<open>\<open>send()\<close> of the chunk at index \<open>i\<close>, with the file's \<open>progressHandler\<close> listening.\<close>

definition send :: "nat \<Rightarrow> resumableFile \<Rightarrow> resumableFile" where
  "send i f =
     (if i < length (chunks f) then
        let (c, m) = chunk_send (opts f) (chunks f ! i);
            f' = f\<lparr>chunks := (chunks f)[i := c]\<rparr>
        in case m of None \<Rightarrow> f' | Some msg \<Rightarrow> progressHandler msg (offset c) f'
      else f)"

text \<open>
  The loop of \<open>upload()\<close>: the index of the first chunk whose status is PENDING, and the
  chunks as the loop leaves them.
\<close>

fun find_pending :: "options \<Rightarrow> chunk list \<Rightarrow> nat \<Rightarrow> nat option \<times> chunk list" where
  "find_pending os [] i = (None, [])"
| "find_pending os (c # cs) i =
     (let (s, c') = status os c
      in if s = PENDING then (Some i, c' # cs)
         else let (r, cs') = find_pending os cs (Suc i) in (r, c' # cs'))"

definition upload :: "resumableFile \<Rightarrow> bool \<times> resumableFile" where
  "upload f =
     (if isPaused f then (False, f)
      else
        let (r, cs) = find_pending (opts f) (chunks f) 0;
            f' = f\<lparr>chunks := cs\<rparr>
        in case r of None \<Rightarrow> (False, f') | Some i \<Rightarrow> (True, send i f'))"

text \<open>
  \<open>doneHandler\<close> of the chunk at index \<open>i\<close>: the listener of \<open>load\<close>, \<open>error\<close> and
  \<open>timeout\<close> of its upload request. With a retry interval the chunk waits for the timer
  (\<open>pendingRetry\<close>); the timer then calls \<open>send()\<close>.
\<close>

definition doneHandler :: "nat \<Rightarrow> resumableFile \<Rightarrow> resumableFile" where
  "doneHandler i f =
     (let (s, c1) = status (opts f) (chunks f ! i);
          f1 = f\<lparr>chunks := (chunks f)[i := c1]\<rparr>
      in case s of
           SUCCESS \<Rightarrow> successHandler (message c1) (offset c1) f1
         | ERROR \<Rightarrow> errorHandler (message c1) (offset c1) f1
         | _ \<Rightarrow>
             let f2 = retryHandler (message c1) (offset c1) f1;
                 c2 = chunk_abort c1;
                 c3 = c2\<lparr>retries := Suc (retries c2)\<rparr>
             in (case chunkRetryInterval (opts f) of
                   Some _ \<Rightarrow> f2\<lparr>chunks := (chunks f2)[i := c3\<lparr>pendingRetry := True\<rparr>]\<rparr>
                 | None \<Rightarrow> send i (f2\<lparr>chunks := (chunks f2)[i := c3]\<rparr>)))"

text \<open>\<open>testHandler\<close> of the chunk at index \<open>i\<close>: the listener of its test request.\<close>

definition testHandler :: "nat \<Rightarrow> resumableFile \<Rightarrow> resumableFile" where
  "testHandler i f =
     (let c0 = (chunks f ! i)\<lparr>tested := True\<rparr>;
          (s, c1) = status (opts f) c0;
          f1 = f\<lparr>chunks := (chunks f)[i := c1]\<rparr>
      in if s = SUCCESS then successHandler (message c1) (offset c1) f1
         else send i f1)"

text \<open>
  The request of the chunk at index \<open>i\<close> ends with HTTP status \<open>st\<close> (0 for a network
  error or a timeout) and response text \<open>txt\<close>: it reaches state DONE and its listener
  runs. Nothing happens when the chunk has no request in flight.
\<close>

definition xhr_done :: "nat \<Rightarrow> nat \<Rightarrow> string \<Rightarrow> resumableFile \<Rightarrow> resumableFile" where
  "xhr_done i st txt f =
     (if i < length (chunks f) then
        case xhr (chunks f ! i) of
          None \<Rightarrow> f
        | Some x \<Rightarrow>
            if readyState x < 4 then
              let x' = x\<lparr>readyState := 4, xhrStatus := st, responseText := txt\<rparr>;
                  c = (chunks f ! i)\<lparr>xhr := Some x'\<rparr>;
                  f' = f\<lparr>chunks := (chunks f)[i := c]\<rparr>
              in if isTest x then testHandler i f' else doneHandler i f'
            else f
      else f)"

text \<open>
  An upload progress event of the request of the chunk at index \<open>i\<close>, with \<open>n\<close> bytes
  sent; \<open>elapsed\<close> tells whether more than \<open>throttleProgressCallbacks\<close> seconds have
  passed since the last callback.
\<close>

definition xhr_progress :: "nat \<Rightarrow> nat \<Rightarrow> bool \<Rightarrow> resumableFile \<Rightarrow> resumableFile" where
  "xhr_progress i n elapsed f =
     (if i < length (chunks f) then
        case xhr (chunks f ! i) of
          None \<Rightarrow> f
        | Some x \<Rightarrow>
            if readyState x < 4 \<and> \<not> isTest x then
              let c = chunks f ! i;
                  f1 = (if elapsed then progressHandler (message c) (offset c) f else f)
              in f1\<lparr>chunks := (chunks f1)[i := c\<lparr>loaded := n\<rparr>]\<rparr>
            else f
      else f)"

subsection \<open>Sequences of operations on a file\<close>

text \<open>
  What can happen to a file between two observations: a call of one of its methods, a
  call of \<open>send()\<close> on one of its chunks (by the scheduler or by a retry timer), an event
  of a request, and a callback from a chunk that the file has already discarded
  (\<open>OpStale...\<close>: such a chunk still holds the file's handlers).
\<close>

datatype file_op =
    OpProgress
  | OpAbort
  | OpCancel
  | OpRetry
  | OpUpload
  | OpIsUploading
  | OpIsComplete
  | OpMarkChunksCompleted nat
  | OpSend nat
  | OpXhrDone nat nat string
  | OpXhrProgress nat nat bool
  | OpStaleProgress string nat
  | OpStaleRetry string nat
  | OpStaleSuccess string nat
  | OpStaleError string nat

text \<open>
  One operation: the value that \<open>progress()\<close> returns, if the operation is a call of
  it, and the file afterwards. \<open>None\<close> when the operation does not return.
\<close>

fun apply_op :: "file_op \<Rightarrow> resumableFile \<Rightarrow> (jsnum option \<times> resumableFile) option" where
  "apply_op OpProgress f = (let (v, f') = file_progress f in Some (Some v, f'))"
| "apply_op OpAbort f = Some (None, file_abort f)"
| "apply_op OpCancel f = Some (None, file_cancel f)"
| "apply_op OpRetry f = (case retry f of None \<Rightarrow> None | Some f' \<Rightarrow> Some (None, f'))"
| "apply_op OpUpload f = Some (None, snd (upload f))"
| "apply_op OpIsUploading f = Some (None, snd (isUploading f))"
| "apply_op OpIsComplete f = Some (None, snd (isComplete f))"
| "apply_op (OpMarkChunksCompleted n) f = Some (None, markChunksCompleted n f)"
| "apply_op (OpSend i) f = Some (None, send i f)"
| "apply_op (OpXhrDone i st txt) f = Some (None, xhr_done i st txt f)"
| "apply_op (OpXhrProgress i n elapsed) f = Some (None, xhr_progress i n elapsed f)"
| "apply_op (OpStaleProgress msg off) f = Some (None, progressHandler msg off f)"
| "apply_op (OpStaleRetry msg off) f = Some (None, retryHandler msg off f)"
| "apply_op (OpStaleSuccess msg off) f = Some (None, successHandler msg off f)"
| "apply_op (OpStaleError msg off) f = Some (None, errorHandler msg off f)"

text \<open>A sequence of operations: the values the calls of \<open>progress()\<close> return, in order.\<close>

fun run :: "file_op list \<Rightarrow> resumableFile \<Rightarrow> (jsnum list \<times> resumableFile) option" where
  "run [] f = Some ([], f)"
| "run (op # ops) f =
     (case apply_op op f of
        None \<Rightarrow> None
      | Some (vo, f1) \<Rightarrow>
          (case run ops f1 of
             None \<Rightarrow> None
           | Some (vs, f2) \<Rightarrow> Some ((case vo of None \<Rightarrow> vs | Some v \<Rightarrow> v # vs), f2)))"

section \<open>Resumable\<close>

text \<open>
  A \<open>File\<close> of the browser, extended with \<open>uniqueIdentifier\<close>. \<open>objId\<close> stands for the
  identity of the object: \<open>includes\<close> compares files by identity, and two entries of a
  list with the same \<open>objId\<close> are one object (so they agree on everything).
\<close>

record extendedFile =
  objId :: nat
  ef_name :: string
  ef_size :: nat
  ef_type :: string
  ef_uniqueIdentifier :: string

datatype reason =
  UnknownFileCategory | Duplicate | FileType | MinFileSize | MaxFileSize | Validation | MaxFiles

text \<open>
  What the scheduler fires (\<open>fileProcessingFailed\<close> with the file, the reason and the
  category; \<open>fileAdded\<close> with the identifier of the file; ...) and the error callbacks
  of the configuration that it calls, in order.
\<close>

datatype signal =
    FileProcessingFailed "extendedFile option" reason string
  | FileAdded string string
  | FilesAdded "extendedFile list" "extendedFile list" string
  | FileSuccessSignal string string string
  | CategoryComplete string
  | Complete
  | FileTypeErrorCallback extendedFile
  | MinFileSizeErrorCallback extendedFile
  | MaxFileSizeErrorCallback extendedFile
  | FileValidationErrorCallback extendedFile
  | MaxFilesErrorCallback "extendedFile list"

datatype failure = TypeError | ConfigError | NoReturn

text \<open>
  \<open>files\<close> and \<open>validators\<close> are plain objects (\<open>{}\<close>). A key that such an object
  does not hold itself is looked up in \<open>Object.prototype\<close>, which has the members
  below: for these keys \<open>k in obj\<close> is true, and \<open>obj[k]\<close> is a function, or
  \<open>Object.prototype\<close> itself for \<open>__proto__\<close>, in any case a truthy value.
\<close>

definition object_prototype_keys :: "string list" where
  "object_prototype_keys =
     [''constructor'', ''__defineGetter__'', ''__defineSetter__'', ''hasOwnProperty'',
      ''__lookupGetter__'', ''__lookupSetter__'', ''isPrototypeOf'', ''propertyIsEnumerable'',
      ''toString'', ''valueOf'', ''__proto__'', ''toLocaleString'']"

datatype 'a js_property = Own 'a | Inherited | Undefined

definition get_property :: "(string \<Rightarrow> 'a option) \<Rightarrow> string \<Rightarrow> 'a js_property" where
  "get_property obj k =
     (case obj k of
        Some v \<Rightarrow> Own v
      | None \<Rightarrow> if k \<in> set object_prototype_keys then Inherited else Undefined)"

text \<open>
  What the call \<open>obj[k](file, fileCategory)\<close> of an inherited member does, with a
  \<open>File\<close> and a string as arguments: it throws, or it returns a value that is read as a
  truth value. \<open>__proto__\<close> is not a function; \<open>__defineGetter__\<close> and
  \<open>__defineSetter__\<close> want a function as second argument; \<open>hasOwnProperty\<close> and
  \<open>propertyIsEnumerable\<close> look for the key \<open>String(file)\<close>; \<open>isPrototypeOf\<close> is false of a
  \<open>File\<close>; \<open>__lookupGetter__\<close> and \<open>__lookupSetter__\<close> return \<open>undefined\<close>; \<open>constructor\<close>
  (that is, \<open>Object\<close>) returns the file, \<open>valueOf\<close> the object, \<open>toString\<close> and
  \<open>toLocaleString\<close> a non-empty string.
\<close>

datatype call_result = Throws | Returns bool

definition call_inherited :: "(string \<Rightarrow> 'a option) \<Rightarrow> string \<Rightarrow> call_result" where
  "call_inherited obj k =
     (if k = ''__proto__'' \<or> k = ''__defineGetter__'' \<or> k = ''__defineSetter__'' then Throws
      else if k = ''hasOwnProperty'' \<or> k = ''propertyIsEnumerable''
        then Returns (obj ''[object File]'' \<noteq> None)
      else if k = ''isPrototypeOf'' \<or> k = ''__lookupGetter__'' \<or> k = ''__lookupSetter__''
        then Returns False
      else Returns True)"

text \<open>
  The keys that the object \<open>files\<close> holds itself are the file categories: the constructor
  creates one entry for each, and no entry is added or removed later. So \<open>files\<close> is a
  function on categories, and \<open>files_property\<close> gives \<open>this.files[c]\<close> for any key \<open>c\<close>.
  \<open>validators\<close> gives the entries that the object \<open>validators\<close> holds itself. \<open>fileTypes\<close>
  holds the sanitized types of each category. A validator takes the file and the
  category; its result is read as a truth value.
\<close>

record Resumable =
  files :: "string \<Rightarrow> resumableFile list"
  fileCategories :: "string list"
  uncompletedFileCategories :: "string list"
  fileTypes :: "string \<Rightarrow> string list"
  minFileSize :: "nat option"
  maxFileSize :: "nat option"
  maxFiles :: "nat option"
  validators :: "string \<Rightarrow> (extendedFile \<Rightarrow> string \<Rightarrow> bool) option"
  generateUniqueIdentifier :: "(extendedFile \<Rightarrow> string \<Rightarrow> string) option"
  r_opts :: options
  fired :: "signal list"

definition fire_signal :: "signal \<Rightarrow> Resumable \<Rightarrow> Resumable" where
  "fire_signal e s = s\<lparr>fired := fired s @ [e]\<rparr>"

definition files_property :: "Resumable \<Rightarrow> string \<Rightarrow> resumableFile list js_property" where
  "files_property s c =
     get_property (\<lambda>k. if k \<in> set (fileCategories s) then Some (files s k) else None) c"

text \<open>
  The categories as \<open>setInstanceProperties\<close> sets them up: the default category is
  added unless it is null (\<open>None\<close>) or already there; then a category gets an entry in
  \<open>files\<close> unless \<open>this.files[fileCategory]\<close> is truthy already, which it is for a
  category given before and for a member of \<open>Object.prototype\<close>. \<open>seen\<close> holds the
  categories that have their entry.
\<close>

fun deduplicate :: "string list \<Rightarrow> string list \<Rightarrow> string list" where
  "deduplicate seen [] = []"
| "deduplicate seen (c # cs) =
     (if c \<in> set seen \<or> c \<in> set object_prototype_keys then deduplicate seen cs
      else c # deduplicate (c # seen) cs)"

definition init_categories :: "string list \<Rightarrow> string option \<Rightarrow> failure + string list" where
  "init_categories cats dflt =
     (case dflt of
        None \<Rightarrow> if cats = [] then Inl ConfigError else Inr (deduplicate [] cats)
      | Some d \<Rightarrow> if d \<notin> set cats then Inr (deduplicate [] (cats @ [d]))
                  else Inr (deduplicate [] cats))"

text \<open>
  A new instance: no file in any category, every category uncompleted. \<open>cfg\<close> gives
  the other options.
\<close>

definition new_Resumable :: "string list \<Rightarrow> string option \<Rightarrow> Resumable \<Rightarrow> failure + Resumable" where
  "new_Resumable cats dflt cfg =
     (case init_categories cats dflt of
        Inl e \<Rightarrow> Inl e
      | Inr cs \<Rightarrow> Inr (cfg\<lparr>files := (\<lambda>_. []), fileCategories := cs,
                             uncompletedFileCategories := cs, fired := []\<rparr>))"

text \<open>\<open>getFilesOfAllCategories()\<close>.\<close>

definition getFilesOfAllCategories :: "Resumable \<Rightarrow> resumableFile list" where
  "getFilesOfAllCategories s = concat (map (files s) (fileCategories s))"

text \<open>\<open>findIndex\<close> and \<open>splice\<close>: drop the first element that passes the test.\<close>

fun remove_first :: "('a \<Rightarrow> bool) \<Rightarrow> 'a list \<Rightarrow> 'a list" where
  "remove_first p [] = []"
| "remove_first p (x # xs) = (if p x then xs else x # remove_first p xs)"

text \<open>
  \<open>removeFile(file)\<close>; \<open>findIndex\<close> is a method of the arrays only, so the call throws
  when \<open>this.files[fileCategory]\<close> is not one of them.
\<close>

definition removeFile :: "resumableFile \<Rightarrow> Resumable \<Rightarrow> failure + Resumable" where
  "removeFile f s =
     (let c = fileCategory f
      in case files_property s c of
           Own fs \<Rightarrow>
             Inr (s\<lparr>files := (files s)
                    (c := remove_first (\<lambda>g. uniqueIdentifier g = uniqueIdentifier f) fs)\<rparr>)
         | _ \<Rightarrow> Inl TypeError)"

subsection \<open>Unique identifiers\<close>

text \<open>A number as a decimal string.\<close>

fun decimal :: "nat \<Rightarrow> string" where
  "decimal n =
     (if n < 10 then [char_of (48 + n)]
      else decimal (n div 10) @ [char_of (48 + n mod 10)])"

text \<open>The characters that the default generator keeps: \<open>[0-9a-zA-Z_-]\<close>.\<close>

definition identifier_char :: "char \<Rightarrow> bool" where
  "identifier_char c =
     (let n = (of_char c :: nat)
      in (48 \<le> n \<and> n \<le> 57) \<or> (97 \<le> n \<and> n \<le> 122) \<or> (65 \<le> n \<and> n \<le> 90) \<or> n = 95 \<or> n = 45)"

text \<open>\<open>Helpers.generateUniqueIdentifier(file)\<close>.\<close>

definition default_generateUniqueIdentifier :: "extendedFile \<Rightarrow> string" where
  "default_generateUniqueIdentifier file =
     decimal (ef_size file) @ ''-'' @ filter identifier_char (ef_name file)"

text \<open>\<open>callGenerateUniqueIdentifier(file, event, fileCategory)\<close>.\<close>

definition callGenerateUniqueIdentifier :: "Resumable \<Rightarrow> extendedFile \<Rightarrow> string \<Rightarrow> string" where
  "callGenerateUniqueIdentifier s file cat =
     (case generateUniqueIdentifier s of
        Some g \<Rightarrow> g file cat
      | None \<Rightarrow> default_generateUniqueIdentifier file)"

subsection \<open>Validation\<close>

text \<open>
  \<open>Helpers.uniqBy(array, callback, errorCallback)\<close>: the elements kept and the elements
  for which the error callback runs, both in order. \<open>seen\<close> is the set of keys met.
\<close>

fun uniqBy :: "('a \<Rightarrow> 'k) \<Rightarrow> 'k list \<Rightarrow> 'a list \<Rightarrow> 'a list \<times> 'a list" where
  "uniqBy key seen [] = ([], [])"
| "uniqBy key seen (x # xs) =
     (if key x \<in> set seen
      then let (kept, dups) = uniqBy key seen xs in (kept, x # dups)
      else let (kept, dups) = uniqBy key (key x # seen) xs in (x # kept, dups))"

text \<open>\<open>toLowerCase()\<close>, on the letters A to Z.\<close>

definition toLowerCase :: "string \<Rightarrow> string" where
  "toLowerCase str =
     map (\<lambda>c. let n = (of_char c :: nat) in if 65 \<le> n \<and> n \<le> 90 then char_of (n + 32) else c) str"

text \<open>\<open>file.name.split('.').pop().toLowerCase()\<close>: what follows the last dot.\<close>

definition fileExtension :: "extendedFile \<Rightarrow> string" where
  "fileExtension file = toLowerCase (rev (takeWhile (\<lambda>c. c \<noteq> CHR ''.'') (rev (ef_name file))))"

text \<open>
  The test of one allowed type against a file: the extension is the type, or the type
  is a MIME type that the type of the file matches, up to the first \<open>*\<close> if it has one.
\<close>

definition type_matches :: "extendedFile \<Rightarrow> string \<Rightarrow> bool" where
  "type_matches file ty =
     (let fileType = toLowerCase (ef_type file);
          star = length (takeWhile (\<lambda>c. c \<noteq> CHR ''*'') ty)
      in fileExtension file = ty \<or>
         (CHR ''/'' \<in> set ty \<and>
          ((CHR ''*'' \<in> set ty \<and> take star fileType = take star ty) \<or> fileType = ty)))"

text \<open>
  The checks on one file, in the order of the source: \<open>Inr None\<close> if the file passes all
  of them, else \<open>Inr\<close> of the reason of the first that it fails. The last check is
  \<open>fileExtension in this.validators && !(await this.validators[fileExtension](file,
  fileCategory))\<close>, which calls whatever the object has or inherits under the extension,
  and throws when that cannot be called.
\<close>

definition validateFile :: "Resumable \<Rightarrow> string \<Rightarrow> extendedFile \<Rightarrow> failure + reason option" where
  "validateFile s cat file =
     (if \<exists>addedFile \<in> set (files s cat). uniqueIdentifier addedFile = ef_uniqueIdentifier file
        then Inr (Some Duplicate)
      else if fileTypes s cat \<noteq> [] \<and> \<not> (\<exists>ty \<in> set (fileTypes s cat). type_matches file ty)
        then Inr (Some FileType)
      else if (case minFileSize s of None \<Rightarrow> False | Some m \<Rightarrow> ef_size file < m)
        then Inr (Some MinFileSize)
      else if (case maxFileSize s of None \<Rightarrow> False | Some m \<Rightarrow> m < ef_size file)
        then Inr (Some MaxFileSize)
      else
        (case get_property (validators s) (fileExtension file) of
           Undefined \<Rightarrow> Inr None
         | Own v \<Rightarrow> if v file cat then Inr None else Inr (Some Validation)
         | Inherited \<Rightarrow>
             (case call_inherited (validators s) (fileExtension file) of
                Throws \<Rightarrow> Inl TypeError
              | Returns b \<Rightarrow> if b then Inr None else Inr (Some Validation))))"

text \<open>What a failed check fires and calls.\<close>

fun failure_signals :: "string \<Rightarrow> extendedFile \<Rightarrow> reason \<Rightarrow> signal list" where
  "failure_signals cat file FileType =
     [FileProcessingFailed (Some file) FileType cat, FileTypeErrorCallback file]"
| "failure_signals cat file MinFileSize =
     [FileProcessingFailed (Some file) MinFileSize cat, MinFileSizeErrorCallback file]"
| "failure_signals cat file MaxFileSize =
     [FileProcessingFailed (Some file) MaxFileSize cat, MaxFileSizeErrorCallback file]"
| "failure_signals cat file Validation =
     [FileProcessingFailed (Some file) Validation cat, FileValidationErrorCallback file]"
| "failure_signals cat file r = [FileProcessingFailed (Some file) r cat]"

text \<open>
  The signals of the validation of a list of files. A check fails either before the
  validator is awaited, and then fires at once, or after it: the failures of validators
  come last (in the order of the files, for validators that answer in that order).
\<close>

definition validation_signals :: "Resumable \<Rightarrow> string \<Rightarrow> extendedFile list \<Rightarrow> signal list" where
  "validation_signals s cat fs =
     concat (map (\<lambda>file. case validateFile s cat file of
                            Inr (Some Validation) \<Rightarrow> []
                          | Inr (Some r) \<Rightarrow> failure_signals cat file r
                          | _ \<Rightarrow> []) fs) @
     concat (map (\<lambda>file. case validateFile s cat file of
                            Inr (Some Validation) \<Rightarrow> failure_signals cat file Validation
                          | _ \<Rightarrow> []) fs)"

text \<open>
  \<open>validateFiles(files, fileCategory)\<close>: \<open>None\<close> is \<open>undefined\<close>, returned for an
  unknown category. The results are computed over \<open>uniqueFiles\<close>; the last line filters
  \<open>files\<close> by \<open>results[index]\<close>, which is undefined (false) beyond the end of \<open>results\<close>.
  When the validation of a file throws, \<open>Promise.all\<close> rejects and so does
  \<open>validateFiles\<close>: the result is the failure (what has been fired is not kept then).
\<close>

definition validateFiles ::
    "Resumable \<Rightarrow> extendedFile list \<Rightarrow> string \<Rightarrow> failure + (extendedFile list option \<times> Resumable)" where
  "validateFiles s fs cat =
     (if cat \<notin> set (fileCategories s)
      then Inr (None, fire_signal (FileProcessingFailed None UnknownFileCategory cat) s)
      else
        let (uniqueFiles, dups) = uniqBy ef_uniqueIdentifier [] fs;
            s1 = foldl (\<lambda>t file. fire_signal (FileProcessingFailed (Some file) Duplicate cat) t) s dups;
            results = map (validateFile s1 cat) uniqueFiles;
            s2 = s1\<lparr>fired := fired s1 @ validation_signals s1 cat uniqueFiles\<rparr>
        in if \<exists>r \<in> set results. isl r then Inl TypeError
           else Inr (Some (map fst (filter snd (zip fs (map (\<lambda>r. r = Inr None) results)))), s2))"

subsection \<open>Adding files\<close>

text \<open>
  The loop of \<open>appendFilesFromFileList\<close> over the validated files: a \<open>ResumableFile\<close> is
  constructed for each, pushed to the category and announced.
\<close>

fun add_files :: "string \<Rightarrow> extendedFile list \<Rightarrow> Resumable \<Rightarrow> failure + Resumable" where
  "add_files cat [] s = Inr s"
| "add_files cat (file # rest) s =
     (case new_file (r_opts s) (ef_name file) (ef_size file) (ef_uniqueIdentifier file) cat of
        None \<Rightarrow> Inl NoReturn
      | Some f \<Rightarrow>
          add_files cat rest
            (fire_signal (FileAdded (uniqueIdentifier f) cat)
               (s\<lparr>files := (files s)(cat := files s cat @ [f])\<rparr>)))"

text \<open>
  \<open>appendFilesFromFileList\<close> from the point where the unique identifiers are added.
  \<open>validatedFiles.includes\<close> and the loop over \<open>validatedFiles\<close> throw when
  \<open>validateFiles\<close> has returned \<open>undefined\<close>.
\<close>

definition append_validated ::
    "Resumable \<Rightarrow> extendedFile list \<Rightarrow> string \<Rightarrow> failure + (bool option \<times> Resumable)" where
  "append_validated s fileList cat =
     (let filesWithUniqueIdentifiers =
            map (\<lambda>file. file\<lparr>ef_uniqueIdentifier := callGenerateUniqueIdentifier s file cat\<rparr>) fileList
      in case validateFiles s filesWithUniqueIdentifiers cat of
           Inl e \<Rightarrow> Inl e
         | Inr (None, s1) \<Rightarrow> Inl TypeError
         | Inr (Some validatedFiles, s1) \<Rightarrow>
             let skippedFiles = filter (\<lambda>file. file \<notin> set validatedFiles) filesWithUniqueIdentifiers
             in (case add_files cat validatedFiles s1 of
                   Inl e \<Rightarrow> Inl e
                 | Inr s2 \<Rightarrow>
                     if validatedFiles = [] \<and> skippedFiles = [] then Inr (None, s2)
                     else Inr (None, fire_signal (FilesAdded validatedFiles skippedFiles cat) s2)))"

text \<open>\<open>resumableFiles[0]\<close>: undefined unless \<open>resumableFiles\<close> is an array with an element.\<close>

fun first_file :: "resumableFile list js_property \<Rightarrow> resumableFile option" where
  "first_file (Own (f # fs)) = Some f"
| "first_file _ = None"

text \<open>
  \<open>appendFilesFromFileList(fileList, event, fileCategory)\<close>: the value returned
  (\<open>Some False\<close> for \<open>false\<close>, \<open>None\<close> for \<open>undefined\<close>) and the instance afterwards, or the
  failure. The first test is \<open>!this.files[fileCategory]\<close>: it holds only of a key under
  which the object has no member, neither its own nor an inherited one.
  \<open>removeFile(resumableFiles[0])\<close> throws when \<open>resumableFiles[0]\<close> is undefined.
\<close>

definition appendFilesFromFileList ::
    "Resumable \<Rightarrow> extendedFile list \<Rightarrow> string \<Rightarrow> failure + (bool option \<times> Resumable)" where
  "appendFilesFromFileList s fileList cat =
     (let resumableFiles = files_property s cat
      in if resumableFiles = Undefined
         then Inr (Some False, fire_signal (FileProcessingFailed None UnknownFileCategory cat) s)
         else
           let allResumableFiles = getFilesOfAllCategories s
           in if (case maxFiles s of
                    None \<Rightarrow> False
                  | Some m \<Rightarrow> m < length fileList + length allResumableFiles)
              then
                if maxFiles s = Some 1 \<and> length allResumableFiles = 1 \<and> length fileList = 1
                then (case first_file resumableFiles of
                        None \<Rightarrow> Inl TypeError
                      | Some f \<Rightarrow>
                          (case removeFile f s of
                             Inl e \<Rightarrow> Inl e
                           | Inr s1 \<Rightarrow> append_validated s1 fileList cat))
                else Inr (Some False,
                          fire_signal (MaxFilesErrorCallback fileList)
                            (fire_signal (FileProcessingFailed None MaxFiles cat) s))
              else append_validated s fileList cat)"

subsection \<open>Completion\<close>

text \<open>
  \<open>Array.prototype.every\<close> over the files of a category with the getter \<open>isComplete\<close>:
  it stops at the first file that is not complete.
\<close>

fun every_complete :: "resumableFile list \<Rightarrow> bool \<times> resumableFile list" where
  "every_complete [] = (True, [])"
| "every_complete (f # fs) =
     (let (b, f') = isComplete f
      in if b then let (r, fs') = every_complete fs in (r, f' # fs')
         else (False, f' # fs))"




section \<open>Example values\<close>

text \<open>The defaults of the options, as the classes declare them.\<close>

definition default_options :: options where
  "default_options =
     \<lparr> chunkSize = 1048576, testChunks = True, maxChunkRetries = 100,
       chunkRetryInterval = None, permanentErrors = [400, 401, 403, 404, 409, 415, 500, 501] \<rparr>"

text \<open>
  The first chunk of a file of 1 MB whose upload request has ended with HTTP status
  \<open>st\<close>, after \<open>n\<close> retries.
\<close>

definition finished_chunk :: "nat \<Rightarrow> nat \<Rightarrow> chunk" where
  "finished_chunk st n =
     (new_chunk default_options 1048576 0)
       \<lparr> retries := n,
         xhr := Some \<lparr> readyState = 4, xhrStatus = st, responseText = [], isTest = False \<rparr> \<rparr>"

text \<open>
  A file of 2.5 MB as the constructor holds it when it calls \<open>bootstrap()\<close>.
\<close>

definition example_file :: resumableFile where
  "example_file =
     \<lparr> opts = default_options, prevProgress = Fin 0, isPaused = False,
       fileName = ''video.mp4'', fileSize = 2621440, uniqueIdentifier = ''2621440-videomp4'',
       fileCategory = ''default'', error = True, chunks = [], events = [ChunkingStart],
       armedRetryListeners = 0 \<rparr>"

text \<open>
  A file with an upload that fails: the request of its first chunk has ended with status
  code 404 while the request of its second chunk is in flight.
\<close>

definition example_failing_file :: resumableFile where
  "example_failing_file =
     example_file\<lparr> error := False,
       chunks := [finished_chunk 404 0,
                  (new_chunk default_options 2621440 1)\<lparr>xhr := Some (new_xhr False)\<rparr>] \<rparr>"

text \<open>
  An instance with the default category only and the default limits, and a file handle
  given by the identity of its object, its name, its size and its unique identifier.
\<close>

definition example_Resumable :: Resumable where
  "example_Resumable =
     \<lparr> files = (\<lambda>_. []), fileCategories = [''default''],
       uncompletedFileCategories = [''default''], fileTypes = (\<lambda>_. []),
       minFileSize = Some 1, maxFileSize = None, maxFiles = None, validators = (\<lambda>_. None),
       generateUniqueIdentifier = None, r_opts = default_options, fired = [] \<rparr>"

definition example_upload :: "nat \<Rightarrow> string \<Rightarrow> nat \<Rightarrow> string \<Rightarrow> extendedFile" where
  "example_upload i nm sz uid =
     \<lparr> objId = i, ef_name = nm, ef_size = sz, ef_type = ''video/mp4'', ef_uniqueIdentifier = uid \<rparr>"






section \<open>Notions used in the proofs\<close>

text \<open>
  \<open>floor_of\<close> is the least value that the next call of \<open>progress()\<close> can return: 1
  in the error state, \<open>_prevProgress\<close> otherwise. \<open>floor_le a b\<close> holds when a floor \<open>a\<close>
  can be followed by the value \<open>b\<close>: both at most 1 and in order, with \<open>NaN\<close> able to
  follow any floor and to be followed by \<open>NaN\<close> or by 1 only.
\<close>

fun floor_le :: "jsnum \<Rightarrow> jsnum \<Rightarrow> bool" where
  "floor_le (Fin a) (Fin b) = (a \<le> b \<and> b \<le> 1)"
| "floor_le (Fin a) NaN = (a \<le> 1)"
| "floor_le NaN NaN = True"
| "floor_le NaN (Fin b) = (b = 1)"
| "floor_le _ _ = False"

definition floor_of :: "resumableFile \<Rightarrow> jsnum" where
  "floor_of f = (if error f then Fin 1 else prevProgress f)"



section \<open>The status of a chunk\<close>

lemma status_result:
  "status os c = (fst (status os c), c) \<or>
   status os c = (PENDING, chunk_abort c) \<and> \<not> pendingRetry c \<and> \<not> isMarkedComplete c"
  by (simp add: status_def split: option.split)



lemma status_SUCCESS_D:
  "fst (status os c) = SUCCESS \<Longrightarrow>
     \<not> pendingRetry c \<and> (isMarkedComplete c \<or> (\<exists>x. xhr c = Some x \<and> xhrStatus x \<noteq> 0))"
  by (auto simp: status_def split: option.splits if_splits)

lemma status_ERROR_D:
  "fst (status os c) = ERROR \<Longrightarrow> \<not> pendingRetry c \<and> \<not> isMarkedComplete c"
  by (simp add: status_def split: option.splits if_splits)

text \<open>
  C2. The status of a chunk follows the ordered decision table: a pending retry gives
  UPLOADING; else a chunk marked complete gives SUCCESS; else no request handle gives
  PENDING; else a request that has not finished gives UPLOADING; else status code 200 or
  201 gives SUCCESS; else a status code among the permanent errors, or retries that have
  reached the maximum, give ERROR; in every remaining case the request handle is reset
  and the status is PENDING.
\<close>

theorem status_decision_table:
  "(pendingRetry c \<longrightarrow> status os c = (UPLOADING, c)) \<and>
   (\<not> pendingRetry c \<and> isMarkedComplete c \<longrightarrow> status os c = (SUCCESS, c)) \<and>
   (\<not> pendingRetry c \<and> \<not> isMarkedComplete c \<and> xhr c = None \<longrightarrow> status os c = (PENDING, c)) \<and>
   (\<not> pendingRetry c \<and> \<not> isMarkedComplete c \<and> xhr c = Some x \<and> readyState x < 4
      \<longrightarrow> status os c = (UPLOADING, c)) \<and>
   (\<not> pendingRetry c \<and> \<not> isMarkedComplete c \<and> xhr c = Some x \<and> \<not> readyState x < 4 \<and>
    (xhrStatus x = 200 \<or> xhrStatus x = 201)
      \<longrightarrow> status os c = (SUCCESS, c)) \<and>
   (\<not> pendingRetry c \<and> \<not> isMarkedComplete c \<and> xhr c = Some x \<and> \<not> readyState x < 4 \<and>
    xhrStatus x \<noteq> 200 \<and> xhrStatus x \<noteq> 201 \<and>
    (xhrStatus x \<in> set (permanentErrors os) \<or> maxChunkRetries os \<le> retries c)
      \<longrightarrow> status os c = (ERROR, c)) \<and>
   (\<not> pendingRetry c \<and> \<not> isMarkedComplete c \<and> xhr c = Some x \<and> \<not> readyState x < 4 \<and>
    xhrStatus x \<noteq> 200 \<and> xhrStatus x \<noteq> 201 \<and>
    xhrStatus x \<notin> set (permanentErrors os) \<and> retries c < maxChunkRetries os
      \<longrightarrow> status os c = (PENDING, c\<lparr>xhr := None\<rparr>))"
  by (simp add: status_def chunk_abort_def)

theorem status_decision_table_witness:
  "status default_options (finished_chunk 503 0) = (PENDING, (finished_chunk 503 0)\<lparr>xhr := None\<rparr>) \<and>
   status default_options (finished_chunk 201 0) = (SUCCESS, finished_chunk 201 0) \<and>
   status default_options (finished_chunk 404 0) = (ERROR, finished_chunk 404 0) \<and>
   status default_options (finished_chunk 503 100) = (ERROR, finished_chunk 503 100)"
  using status_decision_table [of "finished_chunk 503 0" default_options
          "\<lparr> readyState = 4, xhrStatus = 503, responseText = [], isTest = False \<rparr>"]
        status_decision_table [of "finished_chunk 201 0" default_options
          "\<lparr> readyState = 4, xhrStatus = 201, responseText = [], isTest = False \<rparr>"]
        status_decision_table [of "finished_chunk 404 0" default_options
          "\<lparr> readyState = 4, xhrStatus = 404, responseText = [], isTest = False \<rparr>"]
        status_decision_table [of "finished_chunk 503 100" default_options
          "\<lparr> readyState = 4, xhrStatus = 503, responseText = [], isTest = False \<rparr>"]
  by (simp add: finished_chunk_def default_options_def new_chunk_def)



section \<open>The progress of a chunk\<close>

lemma chunk_progress_fst:
  "\<not> pendingRetry c \<Longrightarrow>
   fst (chunk_progress os relative c) =
     (let factor = (if relative
                    then js_div (real (endByte c) - real (startByte c)) (real (fileObjSize c))
                    else Fin 1);
          factor' = (if (case xhr c of None \<Rightarrow> True | Some x \<Rightarrow> xhrStatus x = 0)
                          \<and> \<not> isMarkedComplete c
                     then js_mul factor (Fin (95 / 100)) else factor)
      in case fst (status os c) of
           SUCCESS \<Rightarrow> factor'
         | ERROR \<Rightarrow> factor'
         | PENDING \<Rightarrow> Fin 0
         | UPLOADING \<Rightarrow>
             js_mul (js_div (real (loaded c)) (real (endByte c) - real (startByte c))) factor')"
proof -
  assume np: "\<not> pendingRetry c"
  from status_result [of os c]
  have eq: "loaded (snd (status os c)) = loaded c \<and> endByte (snd (status os c)) = endByte c \<and>
            startByte (snd (status os c)) = startByte c"
    by (auto simp: chunk_abort_def) (metis snd_conv)+
  show ?thesis
    using np eq
    by (simp add: chunk_progress_def Let_def case_prod_beta split: ResumableChunkStatus.split)
qed

text \<open>
  C7, as stated, fails: a chunk whose request has ended without a status code (a network
  error or a timeout) and whose retries are used up has status ERROR, and its progress
  is 0.95, not 1.
\<close>

theorem progress_error_without_status_code:
  "fst (status default_options (finished_chunk 0 100)) = ERROR \<and>
   fst (chunk_progress default_options False (finished_chunk 0 100)) = Fin (95 / 100) \<and>
   fst (chunk_progress default_options False (finished_chunk 0 100)) \<noteq> Fin 1"
  by (simp add: chunk_progress_def status_def finished_chunk_def default_options_def new_chunk_def)

text \<open>
  C7, amended. For every chunk whose status is SUCCESS, or ERROR with a request that
  has produced a status code, \<open>progress(relative)\<close> returns exactly 1 when \<open>relative\<close> is
  false and exactly \<open>(endByte - startByte) / fileSize\<close> when it is true; for every chunk
  with a pending retry it returns 0 (and leaves the chunk as it is).
\<close>

theorem chunk_progress_terminal:
  "(fst (status os c) = SUCCESS \<or>
    fst (status os c) = ERROR \<and> (\<exists>x. xhr c = Some x \<and> xhrStatus x \<noteq> 0)
      \<longrightarrow> fst (chunk_progress os False c) = Fin 1 \<and>
          fst (chunk_progress os True c) =
            js_div (real (endByte c) - real (startByte c)) (real (fileObjSize c))) \<and>
   (pendingRetry c \<longrightarrow> chunk_progress os relative c = (Fin 0, c))"
proof (intro conjI impI)
  assume "pendingRetry c"
  then show "chunk_progress os relative c = (Fin 0, c)"
    by (simp add: chunk_progress_def)
next
  assume a: "fst (status os c) = SUCCESS \<or>
    fst (status os c) = ERROR \<and> (\<exists>x. xhr c = Some x \<and> xhrStatus x \<noteq> 0)"
  then have np: "\<not> pendingRetry c"
    using status_SUCCESS_D status_ERROR_D by blast
  from a have nd: "\<not> ((case xhr c of None \<Rightarrow> True | Some x \<Rightarrow> xhrStatus x = 0) \<and> \<not> isMarkedComplete c)"
    using status_SUCCESS_D [of os c] by auto
  from a have st: "fst (status os c) = SUCCESS \<or> fst (status os c) = ERROR" by blast
  show "fst (chunk_progress os False c) = Fin 1"
    using st nd by (auto simp: chunk_progress_fst [OF np])
  show "fst (chunk_progress os True c) =
          js_div (real (endByte c) - real (startByte c)) (real (fileObjSize c))"
    using st nd by (auto simp: chunk_progress_fst [OF np])
qed

theorem chunk_progress_terminal_witness:
  "fst (chunk_progress default_options False (finished_chunk 200 0)) = Fin 1 \<and>
   fst (chunk_progress default_options True (finished_chunk 200 0)) = Fin 1 \<and>
   chunk_progress default_options True ((finished_chunk 503 1)\<lparr>pendingRetry := True\<rparr>) =
     (Fin 0, (finished_chunk 503 1)\<lparr>pendingRetry := True\<rparr>)"
  using chunk_progress_terminal [of default_options "finished_chunk 200 0"]
        chunk_progress_terminal [of default_options "(finished_chunk 503 1)\<lparr>pendingRetry := True\<rparr>" True]
  by (simp add: status_def finished_chunk_def default_options_def new_chunk_def js_div_def)

section \<open>Splitting a file into chunks\<close>

lemma ceil_div_nat:
  assumes "0 < C"
  shows "nat \<lceil>real S / real C\<rceil> = (S + C - 1) div C"
proof -
  define q where "q = (S + C - 1) div C"
  have le: "S \<le> q * C"
  proof -
    have "(S + C - 1) mod C < C" using assms by simp
    moreover have "q * C + (S + C - 1) mod C = S + C - 1" by (simp add: q_def)
    ultimately show ?thesis by linarith
  qed
  have lt: "q * C < S + C"
  proof -
    have "q * C \<le> S + C - 1" by (simp add: q_def)
    then show ?thesis using assms by linarith
  qed
  have "real S \<le> real q * real C"
    using le by (metis of_nat_le_iff of_nat_mult)
  then have up: "real S / real C \<le> of_int (int q)"
    using assms by (simp add: pos_divide_le_eq)
  have "real q * real C < real S + real C"
    using lt by (metis of_nat_less_iff of_nat_mult of_nat_add)
  then have "(real q - 1) * real C < real S"
    by (simp add: algebra_simps)
  then have lo: "of_int (int q) - 1 < real S / real C"
    using assms by (simp add: pos_less_divide_eq)
  have "\<lceil>real S / real C\<rceil> = int q"
    using lo up by (rule ceiling_unique)
  then show ?thesis by (simp add: q_def)
qed


lemma fire_simps [simp]:
  "opts (fire e f) = opts f"
  "prevProgress (fire e f) = prevProgress f"
  "isPaused (fire e f) = isPaused f"
  "fileName (fire e f) = fileName f"
  "fileSize (fire e f) = fileSize f"
  "uniqueIdentifier (fire e f) = uniqueIdentifier f"
  "fileCategory (fire e f) = fileCategory f"
  "error (fire e f) = error f"
  "chunks (fire e f) = chunks f"
  "armedRetryListeners (fire e f) = armedRetryListeners f"
  "events (fire e f) = events f @ [e]"
  by (simp_all add: fire_def)

lemma foldl_fire_simps [simp]:
  "opts (foldl (\<lambda>g x. fire (h x) g) f xs) = opts f"
  "prevProgress (foldl (\<lambda>g x. fire (h x) g) f xs) = prevProgress f"
  "isPaused (foldl (\<lambda>g x. fire (h x) g) f xs) = isPaused f"
  "fileSize (foldl (\<lambda>g x. fire (h x) g) f xs) = fileSize f"
  "error (foldl (\<lambda>g x. fire (h x) g) f xs) = error f"
  "chunks (foldl (\<lambda>g x. fire (h x) g) f xs) = chunks f"
  "armedRetryListeners (foldl (\<lambda>g x. fire (h x) g) f xs) = armedRetryListeners f"
  "events (foldl (\<lambda>g x. fire (h x) g) f xs) = events f @ map h xs"
  by (induction xs arbitrary: f; simp)+

lemma file_abort_simps [simp]:
  "opts (file_abort f) = opts f"
  "prevProgress (file_abort f) = prevProgress f"
  "isPaused (file_abort f) = isPaused f"
  "fileSize (file_abort f) = fileSize f"
  "error (file_abort f) = error f"
  "armedRetryListeners (file_abort f) = armedRetryListeners f"
  "chunks (file_abort f) = fst (abort_loop (opts f) (chunks f))"
  by (simp_all add: file_abort_def Let_def case_prod_beta)

lemma chunkingComplete_simps [simp]:
  "opts (chunkingComplete f) = opts f"
  "prevProgress (chunkingComplete f) = prevProgress f"
  "isPaused (chunkingComplete f) = isPaused f"
  "fileSize (chunkingComplete f) = fileSize f"
  "error (chunkingComplete f) = error f"
  "chunks (chunkingComplete f) = chunks f"
  "armedRetryListeners (chunkingComplete f) = 0"
  by (simp_all add: chunkingComplete_def Let_def)

lemma foldl_bootstrap_step:
  "opts (foldl (bootstrap_step m) g [0..<n]) = opts g \<and>
   fileSize (foldl (bootstrap_step m) g [0..<n]) = fileSize g \<and>
   prevProgress (foldl (bootstrap_step m) g [0..<n]) = prevProgress g \<and>
   error (foldl (bootstrap_step m) g [0..<n]) = error g \<and>
   isPaused (foldl (bootstrap_step m) g [0..<n]) = isPaused g \<and>
   armedRetryListeners (foldl (bootstrap_step m) g [0..<n]) = armedRetryListeners g \<and>
   chunks (foldl (bootstrap_step m) g [0..<n]) =
     chunks g @ map (new_chunk (opts g) (fileSize g)) [0..<n]"
  by (induction n) (simp_all add: bootstrap_step_def)

lemma js_max_int_1:
  "0 \<le> k \<Longrightarrow> js_max (Fin (of_int k)) (Fin 1) = Fin (real (max (nat k) 1))"
  by (cases "k \<le> 1") (auto simp: max_def)

lemma maxOffset_pos:
  assumes "0 < chunkSize (opts f)"
  shows "maxOffset f = Fin (real (max (nat \<lceil>real (fileSize f) / real (chunkSize (opts f))\<rceil>) 1))"
proof -
  have "0 \<le> real (fileSize f) / real (chunkSize (opts f))" by simp
  then have k0: "0 \<le> \<lceil>real (fileSize f) / real (chunkSize (opts f))\<rceil>"
    by (meson ceiling_mono ceiling_zero order_trans zero_le_ceiling le_less_trans less_le_trans zero_less_one neg_less_0_iff_less)
  have "maxOffset f = js_max (Fin (of_int \<lceil>real (fileSize f) / real (chunkSize (opts f))\<rceil>)) (Fin 1)"
    using assms by (simp add: maxOffset_def js_div_def)
  then show ?thesis
    using js_max_int_1 [OF k0] by simp
qed

lemma bootstrap_result:
  assumes "0 < chunkSize (opts f)"
  shows "\<exists>f'. bootstrap f = Some f' \<and>
           chunks f' = map (new_chunk (opts f) (fileSize f))
                           [0..<max (nat \<lceil>real (fileSize f) / real (chunkSize (opts f))\<rceil>) 1] \<and>
           \<not> error f' \<and> prevProgress f' = Fin 0 \<and> opts f' = opts f \<and> fileSize f' = fileSize f \<and>
           isPaused f' = isPaused f"
proof -
  let ?n = "max (nat \<lceil>real (fileSize f) / real (chunkSize (opts f))\<rceil>) 1"
  let ?f4 = "(file_abort f)\<lparr>error := False, chunks := [], prevProgress := Fin 0\<rparr>"
  have m: "maxOffset ?f4 = Fin (real ?n)"
    using maxOffset_pos [of ?f4] assms by simp
  have "bootstrap f = Some (chunkingComplete (foldl (bootstrap_step (real ?n)) ?f4 [0..<?n]))"
    unfolding bootstrap_def Let_def
    using m by simp
  then show ?thesis
    using foldl_bootstrap_step [of "real ?n" ?f4 ?n] by simp
qed


lemma chunk_count_bounds:
  assumes C: "0 < C" and n: "n = max (nat \<lceil>real S / real C\<rceil>) 1"
  shows "S \<le> n * C" and "\<And>i. i < n \<Longrightarrow> i * C \<le> S" and "S = 0 \<Longrightarrow> n = 1" and "0 < n"
    and "\<And>i. i < n \<Longrightarrow> 0 < S \<Longrightarrow> i * C < S"
proof -
  define q where "q = (S + C - 1) div C"
  have nq: "n = max q 1" using n ceil_div_nat [OF C, of S] by (simp add: q_def)
  have le: "S \<le> q * C"
  proof -
    have "(S + C - 1) mod C < C" using C by simp
    moreover have "q * C + (S + C - 1) mod C = S + C - 1" by (simp add: q_def)
    ultimately show ?thesis by linarith
  qed
  have lt: "q * C < S + C"
  proof -
    have "q * C \<le> S + C - 1" by (simp add: q_def)
    then show ?thesis using C by linarith
  qed
  have "q * C \<le> n * C" using nq by simp
  then show "S \<le> n * C" using le by linarith
  show b: "i * C < S" if "i < n" "0 < S" for i
  proof (cases "i = 0")
    case True
    then show ?thesis using that by simp
  next
    case False
    then have "Suc i \<le> q" using that nq by simp
    then have "Suc i * C \<le> q * C" by (rule mult_le_mono1)
    then show ?thesis using lt by simp
  qed
  show "i * C \<le> S" if "i < n" for i
  proof (cases "S = 0")
    case True
    then have "q = 0" using C by (simp add: q_def)
    then show ?thesis using that nq True by simp
  next
    case False
    then show ?thesis using b [OF that] by simp
  qed
  show "n = 1" if "S = 0"
  proof -
    have "q = 0" using C that by (simp add: q_def)
    then show ?thesis using nq by simp
  qed
  show "0 < n" using nq by simp
qed

lemma sum_chunk_lengths:
  "(\<Sum>i\<leftarrow>[0..<k]. min S (Suc i * C) - i * C) = min S (k * C)"
  by (induction k) (auto simp: min_def)

text \<open>
  C1. For a file of size S and a chunk size C (positive), \<open>bootstrap()\<close> returns and
  leaves exactly \<open>max(ceil(S/C), 1)\<close> chunks, one for a file of zero bytes; chunk \<open>i\<close>
  has \<open>startByte = i * C\<close> and \<open>endByte = min(S, (i + 1) * C)\<close>; the ranges start at 0,
  end at S, each begins where the one before ends, their lengths sum to S, and every
  byte below S lies in exactly one of them.
\<close>

theorem bootstrap_partition:
  assumes "0 < chunkSize (opts f)"
  shows "\<exists>f'. bootstrap f = Some f' \<and>
     length (chunks f') = max (nat \<lceil>real (fileSize f) / real (chunkSize (opts f))\<rceil>) 1 \<and>
     (fileSize f = 0 \<longrightarrow> length (chunks f') = 1) \<and>
     (\<forall>i < length (chunks f').
        offset (chunks f' ! i) = i \<and>
        startByte (chunks f' ! i) = i * chunkSize (opts f) \<and>
        endByte (chunks f' ! i) = min (fileSize f) ((i + 1) * chunkSize (opts f)) \<and>
        startByte (chunks f' ! i) \<le> endByte (chunks f' ! i)) \<and>
     startByte (chunks f' ! 0) = 0 \<and>
     endByte (last (chunks f')) = fileSize f \<and>
     (\<forall>i. Suc i < length (chunks f') \<longrightarrow>
        endByte (chunks f' ! i) = startByte (chunks f' ! Suc i)) \<and>
     (\<Sum>c\<leftarrow>chunks f'. endByte c - startByte c) = fileSize f \<and>
     (\<forall>b < fileSize f.
        \<exists>!i. i < length (chunks f') \<and> startByte (chunks f' ! i) \<le> b \<and> b < endByte (chunks f' ! i))"
proof -
  let ?C = "chunkSize (opts f)"
  let ?S = "fileSize f"
  define n where "n = max (nat \<lceil>real ?S / real ?C\<rceil>) 1"
  have C: "0 < ?C" using assms .
  note B = chunk_count_bounds [OF C n_def]
  obtain f' where f': "bootstrap f = Some f'"
    and cs: "chunks f' = map (new_chunk (opts f) ?S) [0..<n]"
    using bootstrap_result [OF assms] by (auto simp: n_def)
  have len: "length (chunks f') = n" by (simp add: cs)
  have nth: "offset (chunks f' ! i) = i \<and> startByte (chunks f' ! i) = i * ?C \<and>
             endByte (chunks f' ! i) = min ?S ((i + 1) * ?C)" if "i < n" for i
    using that by (simp add: cs new_chunk_def)
  have ord: "startByte (chunks f' ! i) \<le> endByte (chunks f' ! i)" if "i < n" for i
    using nth [OF that] B(2) [OF that] by simp
  have F1: "length (chunks f') = max (nat \<lceil>real ?S / real ?C\<rceil>) 1"
    using len by (simp add: n_def)
  have F2: "?S = 0 \<longrightarrow> length (chunks f') = 1"
    using B(3) len by simp
  have F3: "\<forall>i < length (chunks f').
        offset (chunks f' ! i) = i \<and>
        startByte (chunks f' ! i) = i * ?C \<and>
        endByte (chunks f' ! i) = min ?S ((i + 1) * ?C) \<and>
        startByte (chunks f' ! i) \<le> endByte (chunks f' ! i)"
    using nth ord len by blast
  have F4: "startByte (chunks f' ! 0) = 0"
    using nth [of 0] B(4) by simp
  have F5: "endByte (last (chunks f')) = ?S"
  proof -
    have ne: "chunks f' \<noteq> []" using len B(4) by auto
    have "last (chunks f') = chunks f' ! (n - 1)"
      using last_conv_nth [OF ne] len by simp
    moreover have "n - 1 < n" using B(4) by simp
    ultimately have "endByte (last (chunks f')) = min ?S ((n - 1 + 1) * ?C)"
      using nth [of "n - 1"] by simp
    moreover have "n - 1 + 1 = n" using B(4) by simp
    ultimately show ?thesis using B(1) by simp
  qed
  have F6: "\<forall>i. Suc i < length (chunks f') \<longrightarrow>
        endByte (chunks f' ! i) = startByte (chunks f' ! Suc i)"
  proof (intro allI impI)
    fix i assume "Suc i < length (chunks f')"
    then have si: "Suc i < n" using len by simp
    then have "i < n" by simp
    then have "endByte (chunks f' ! i) = min ?S (Suc i * ?C)" using nth by simp
    moreover have "Suc i * ?C \<le> ?S" using B(2) [OF si] .
    ultimately show "endByte (chunks f' ! i) = startByte (chunks f' ! Suc i)"
      using nth [OF si] by simp
  qed
  have F7: "(\<Sum>c\<leftarrow>chunks f'. endByte c - startByte c) = ?S"
  proof -
    have "(\<Sum>c\<leftarrow>chunks f'. endByte c - startByte c) = (\<Sum>i\<leftarrow>[0..<n]. min ?S (Suc i * ?C) - i * ?C)"
      by (simp add: cs new_chunk_def comp_def)
    also have "\<dots> = min ?S (n * ?C)" by (rule sum_chunk_lengths)
    also have "\<dots> = ?S" using B(1) by simp
    finally show ?thesis .
  qed
  have F8: "\<forall>b < ?S. \<exists>!i. i < length (chunks f') \<and> startByte (chunks f' ! i) \<le> b \<and>
                        b < endByte (chunks f' ! i)"
  proof (intro allI impI)
    fix b assume bS: "b < ?S"
    show "\<exists>!i. i < length (chunks f') \<and> startByte (chunks f' ! i) \<le> b \<and> b < endByte (chunks f' ! i)"
    proof (rule ex1I [where a = "b div ?C"])
      have "b < n * ?C" using bS B(1) by linarith
      then have in_range: "b div ?C < n" by (rule less_mult_imp_div_less)
      have "b div ?C * ?C \<le> b" by simp
      moreover have "b < Suc (b div ?C) * ?C" using dividend_less_div_times [OF C, of b] by simp
      ultimately show "b div ?C < length (chunks f') \<and> startByte (chunks f' ! (b div ?C)) \<le> b \<and>
            b < endByte (chunks f' ! (b div ?C))"
        using in_range nth [OF in_range] bS len by simp
    next
      fix j
      assume j: "j < length (chunks f') \<and> startByte (chunks f' ! j) \<le> b \<and> b < endByte (chunks f' ! j)"
      then have "j < n" using len by simp
      from nth [OF this] j have "?C * j \<le> b" and "b < ?C * Suc j"
        by (simp_all add: mult.commute)
      then show "j = b div ?C" using div_nat_eqI [of ?C j b] by simp
    qed
  qed
  show ?thesis
    by (rule exI [where x = f']) (intro conjI; fact)
qed

theorem bootstrap_partition_witness:
  "\<exists>f'. bootstrap example_file = Some f' \<and> length (chunks f') = 3 \<and>
        endByte (last (chunks f')) = 2621440 \<and>
        (\<Sum>c\<leftarrow>chunks f'. endByte c - startByte c) = 2621440"
proof -
  have "0 < chunkSize (opts example_file)"
    by (simp add: example_file_def default_options_def)
  from bootstrap_partition [OF this] show ?thesis
    by (auto simp: example_file_def default_options_def)
qed

section \<open>Marking chunks as completed\<close>

lemma foldl_update_prefix:
  "n \<le> length cs \<Longrightarrow>
   foldl (\<lambda>cs num. cs[num := g (cs ! num)]) cs [0..<n] = map g (take n cs) @ drop n cs"
proof (induction n)
  case 0
  then show ?case by simp
next
  case (Suc n)
  then have n: "n < length cs" by simp
  have "foldl (\<lambda>cs num. cs[num := g (cs ! num)]) cs [0..<Suc n] =
        (map g (take n cs) @ drop n cs)[n := g ((map g (take n cs) @ drop n cs) ! n)]"
    using Suc by simp
  also have "(map g (take n cs) @ drop n cs) ! n = cs ! n"
    using n by (simp add: nth_append)
  also have "(map g (take n cs) @ drop n cs)[n := g (cs ! n)] =
             map g (take n cs) @ (drop n cs)[0 := g (cs ! n)]"
    using n by (simp add: list_update_append)
  also have "(drop n cs)[0 := g (cs ! n)] = g (cs ! n) # drop (Suc n) cs"
    using n by (simp add: Cons_nth_drop_Suc [symmetric])
  also have "map g (take n cs) @ g (cs ! n) # drop (Suc n) cs = map g (take (Suc n) cs) @ drop (Suc n) cs"
    using n by (simp add: take_Suc_conv_app_nth)
  finally show ?case .
qed

text \<open>
  C8, as stated, fails for \<open>n = k\<close>: on a file with one chunk,
  \<open>markChunksCompleted(1)\<close> marks nothing.
\<close>

theorem markChunksCompleted_all_is_noop:
  "\<exists>f. new_file default_options ''a.bin'' 1 ''1-abin'' ''default'' = Some f \<and>
        length (chunks f) = 1 \<and> markChunksCompleted 1 f = f \<and>
        \<not> isMarkedComplete (chunks f ! 0)"
proof -
  let ?g = "fire ChunkingStart
       \<lparr> opts = default_options, prevProgress = Fin 0, isPaused = False, fileName = ''a.bin'',
         fileSize = 1, uniqueIdentifier = ''1-abin'', fileCategory = ''default'', error = True,
         chunks = [], events = [], armedRetryListeners = 0 \<rparr>"
  have "0 < chunkSize (opts ?g)" by (simp add: default_options_def)
  from bootstrap_result [OF this]
  obtain f where f: "bootstrap ?g = Some f"
    and cs: "chunks f = [new_chunk default_options 1 0]"
    by (auto simp: default_options_def)
  have "markChunksCompleted 1 f = f" by (simp add: markChunksCompleted_def cs)
  then show ?thesis
    using f cs by (simp add: new_file_def new_chunk_def)
qed

text \<open>
  C8, amended. For a file with k chunks: if \<open>n < k\<close>, \<open>markChunksCompleted(n)\<close> marks
  exactly the chunks with indices in \<open>[0, n)\<close> as complete and leaves all other chunks
  and every other field unchanged; if \<open>n \<ge> k\<close>, the call changes nothing.
\<close>

theorem markChunksCompleted_spec:
  "(n < length (chunks f) \<longrightarrow>
      (\<exists>cs. markChunksCompleted n f = f\<lparr>chunks := cs\<rparr> \<and> length cs = length (chunks f) \<and>
            (\<forall>i < length cs.
               cs ! i = (if i < n then (chunks f ! i)\<lparr>isMarkedComplete := True\<rparr> else chunks f ! i)))) \<and>
   (length (chunks f) \<le> n \<longrightarrow> markChunksCompleted n f = f)"
proof (intro conjI impI)
  assume "length (chunks f) \<le> n"
  then show "markChunksCompleted n f = f" by (simp add: markChunksCompleted_def)
next
  assume n: "n < length (chunks f)"
  let ?cs = "map markComplete (take n (chunks f)) @ drop n (chunks f)"
  have "markChunksCompleted n f = f\<lparr>chunks := ?cs\<rparr>"
    using n foldl_update_prefix [of n "chunks f" markComplete]
    by (simp add: markChunksCompleted_def)
  moreover have "length ?cs = length (chunks f)" using n by simp
  moreover have "\<forall>i < length ?cs.
       ?cs ! i = (if i < n then (chunks f ! i)\<lparr>isMarkedComplete := True\<rparr> else chunks f ! i)"
    using n by (auto simp: nth_append markComplete_def)
  ultimately show "\<exists>cs. markChunksCompleted n f = f\<lparr>chunks := cs\<rparr> \<and> length cs = length (chunks f) \<and>
            (\<forall>i < length cs.
               cs ! i = (if i < n then (chunks f ! i)\<lparr>isMarkedComplete := True\<rparr> else chunks f ! i))"
    by blast
qed

theorem markChunksCompleted_spec_witness:
  "\<exists>f cs. bootstrap example_file = Some f \<and> length (chunks f) = 3 \<and>
     markChunksCompleted 2 f = f\<lparr>chunks := cs\<rparr> \<and> length cs = 3 \<and>
     isMarkedComplete (cs ! 0) \<and> isMarkedComplete (cs ! 1) \<and> \<not> isMarkedComplete (cs ! 2) \<and>
     markChunksCompleted 3 f = f \<and> markChunksCompleted 4 f = f"
proof -
  have "0 < chunkSize (opts example_file)"
    by (simp add: example_file_def default_options_def)
  from bootstrap_result [OF this]
  obtain f where f: "bootstrap example_file = Some f"
    and cs: "chunks f = map (new_chunk default_options 2621440) [0..<3]"
    by (auto simp: example_file_def default_options_def)
  have len: "length (chunks f) = 3" by (simp add: cs)
  have un: "\<not> isMarkedComplete (chunks f ! 2)"
    by (simp add: cs new_chunk_def nth_append upt_rec [of 0 3] upt_rec [of 1 3] upt_rec [of 2 3])
  from markChunksCompleted_spec [of 2 f] markChunksCompleted_spec [of 3 f]
       markChunksCompleted_spec [of 4 f] len un f
  show ?thesis by (auto simp: numeral_2_eq_2)
qed

section \<open>What the operations on a file leave unchanged\<close>

lemma some_status_length [simp]: "length (snd (some_status os p cs)) = length cs"
  by (induction cs) (auto simp: case_prod_beta Let_def)

lemma abort_loop_length [simp]: "length (fst (abort_loop os cs)) = length cs"
  by (induction cs) (auto simp: case_prod_beta Let_def)

lemma find_pending_length [simp]: "length (snd (find_pending os cs i)) = length cs"
  by (induction cs arbitrary: i) (auto simp: case_prod_beta Let_def)

lemma progressHandler_simps [simp]:
  "prevProgress (progressHandler msg off f) = prevProgress f"
  "error (progressHandler msg off f) = error f"
  "chunks (progressHandler msg off f) = chunks f"
  "opts (progressHandler msg off f) = opts f"
  by (simp_all add: progressHandler_def)

lemma retryHandler_simps [simp]:
  "prevProgress (retryHandler msg off f) = prevProgress f"
  "error (retryHandler msg off f) = error f"
  "chunks (retryHandler msg off f) = chunks f"
  "opts (retryHandler msg off f) = opts f"
  by (simp_all add: retryHandler_def)

lemma isComplete_simps [simp]:
  "prevProgress (snd (isComplete f)) = prevProgress f"
  "error (snd (isComplete f)) = error f"
  "opts (snd (isComplete f)) = opts f"
  by (simp_all add: isComplete_def case_prod_beta)

lemma isUploading_simps [simp]:
  "prevProgress (snd (isUploading f)) = prevProgress f"
  "error (snd (isUploading f)) = error f"
  by (simp_all add: isUploading_def case_prod_beta)

lemma successHandler_simps [simp]:
  "prevProgress (successHandler msg off f) = prevProgress f"
  "error (successHandler msg off f) = error f"
  by (simp_all add: successHandler_def case_prod_beta Let_def)

lemma errorHandler_simps [simp]:
  "prevProgress (errorHandler msg off f) = prevProgress f"
  "error (errorHandler msg off f)"
  "chunks (errorHandler msg off f) = []"
  by (simp_all add: errorHandler_def Let_def)

lemma send_simps [simp]:
  "prevProgress (send i f) = prevProgress f"
  "error (send i f) = error f"
  by (simp_all add: send_def case_prod_beta Let_def split: option.split)

lemma upload_simps [simp]:
  "prevProgress (snd (upload f)) = prevProgress f"
  "error (snd (upload f)) = error f"
  by (simp_all add: upload_def case_prod_beta Let_def split: option.split)

lemma file_cancel_simps [simp]:
  "prevProgress (file_cancel f) = prevProgress f"
  "error (file_cancel f) = error f"
  "chunks (file_cancel f) = []"
  by (simp_all add: file_cancel_def Let_def)

lemma markChunksCompleted_simps [simp]:
  "prevProgress (markChunksCompleted n f) = prevProgress f"
  "error (markChunksCompleted n f) = error f"
  by (simp_all add: markChunksCompleted_def)

lemma doneHandler_prev [simp]: "prevProgress (doneHandler i f) = prevProgress f"
  by (simp add: doneHandler_def case_prod_beta Let_def
           split: ResumableChunkStatus.split option.split)

lemma doneHandler_error: "error f \<Longrightarrow> error (doneHandler i f)"
  by (simp add: doneHandler_def case_prod_beta Let_def
           split: ResumableChunkStatus.split option.split)

lemma testHandler_prev [simp]: "prevProgress (testHandler i f) = prevProgress f"
  by (simp add: testHandler_def case_prod_beta Let_def)

lemma testHandler_error [simp]: "error (testHandler i f) = error f"
  by (simp add: testHandler_def case_prod_beta Let_def)

lemma xhr_done_prev [simp]: "prevProgress (xhr_done i st txt f) = prevProgress f"
  by (simp add: xhr_done_def Let_def split: option.split)

lemma xhr_done_error: "error f \<Longrightarrow> error (xhr_done i st txt f)"
  by (simp add: xhr_done_def Let_def doneHandler_error split: option.split)

lemma xhr_progress_simps [simp]:
  "prevProgress (xhr_progress i n el f) = prevProgress f"
  "error (xhr_progress i n el f) = error f"
  by (simp_all add: xhr_progress_def Let_def split: option.split)

section \<open>The floor of the progress\<close>

lemma floor_le_trans: "floor_le a b \<Longrightarrow> floor_le b c \<Longrightarrow> floor_le a c"
  by (cases a; cases b; cases c) auto

lemma floor_le_not_gt: "floor_le a b \<Longrightarrow> \<not> js_gt a b"
  by (cases a; cases b) auto

lemma floor_le_refl_right: "floor_le a b \<Longrightarrow> floor_le b b"
  by (cases a; cases b) auto

lemma floor_le_one: "floor_le a a \<Longrightarrow> floor_le a (Fin 1)"
  by (cases a) auto

lemma floor_le_js_max:
  "floor_le p p \<Longrightarrow> \<not> js_gt a (Fin 1) \<Longrightarrow> floor_le p (js_max p a)"
  by (cases p; cases a) auto

lemma aggregate_le_one: "\<not> js_gt (fst (aggregate f)) (Fin 1)"
proof -
  have "js_gt r (Fin 1) \<Longrightarrow> js_gt r (Fin (99999 / 100000))" for r
    by (cases r) auto
  then show ?thesis
    by (auto simp: aggregate_def case_prod_beta Let_def)
qed

lemma file_progress_error: "error f \<Longrightarrow> file_progress f = (Fin 1, f)"
  by (simp add: file_progress_def)

lemma file_progress_ok:
  "\<not> error f \<Longrightarrow>
     fst (file_progress f) = js_max (prevProgress f) (fst (aggregate f)) \<and>
     prevProgress (snd (file_progress f)) = js_max (prevProgress f) (fst (aggregate f)) \<and>
     \<not> error (snd (file_progress f))"
  by (simp add: file_progress_def case_prod_beta Let_def)

lemma apply_op_other:
  assumes "op \<noteq> OpRetry" "op \<noteq> OpProgress"
  shows "\<exists>f'. apply_op op f = Some (None, f') \<and> prevProgress f' = prevProgress f \<and>
              (error f \<longrightarrow> error f')"
  using assms by (cases op) (simp_all add: doneHandler_error xhr_done_error)

lemma apply_op_step:
  assumes "op \<noteq> OpRetry" "floor_le (floor_of f) (floor_of f)"
  shows "\<exists>vo f'. apply_op op f = Some (vo, f') \<and> (error f \<longrightarrow> error f') \<and>
                 floor_le (floor_of f) (floor_of f') \<and>
                 (vo = None \<or> vo = Some (floor_of f'))"
proof (cases "op = OpProgress")
  case False
  from apply_op_other [OF assms(1) False, of f]
  obtain f' where f': "apply_op op f = Some (None, f')" "prevProgress f' = prevProgress f"
    "error f \<longrightarrow> error f'" by blast
  have "floor_le (floor_of f) (floor_of f')"
    using f'(2,3) assms(2) floor_le_one [of "prevProgress f"]
    by (auto simp: floor_of_def)
  then show ?thesis using f' by simp
next
  case True
  show ?thesis
  proof (cases "error f")
    case e: True
    then show ?thesis
      using True by (simp add: file_progress_error floor_of_def)
  next
    case e: False
    let ?v = "js_max (prevProgress f) (fst (aggregate f))"
    from file_progress_ok [OF e]
    have p: "fst (file_progress f) = ?v" "prevProgress (snd (file_progress f)) = ?v"
      "\<not> error (snd (file_progress f))" by simp_all
    have "floor_le (prevProgress f) ?v"
      using assms(2) e aggregate_le_one [of f]
      by (intro floor_le_js_max) (simp_all add: floor_of_def)
    then show ?thesis
      using True e p by (simp add: case_prod_beta floor_of_def)
  qed
qed

lemma run_floor:
  assumes "OpRetry \<notin> set ops" "floor_le (floor_of f) (floor_of f)"
  shows "\<exists>vs g. run ops f = Some (vs, g) \<and> (error f \<longrightarrow> error g) \<and>
                (\<forall>v \<in> set vs. floor_le (floor_of f) v) \<and> sorted_wrt floor_le vs"
  using assms
proof (induction ops arbitrary: f)
  case Nil
  then show ?case by simp
next
  case (Cons op ops)
  then have op: "op \<noteq> OpRetry" and ops: "OpRetry \<notin> set ops" by auto
  from apply_op_step [OF op Cons.prems(2)]
  obtain vo f1 where s: "apply_op op f = Some (vo, f1)" "error f \<longrightarrow> error f1"
    "floor_le (floor_of f) (floor_of f1)" "vo = None \<or> vo = Some (floor_of f1)" by blast
  have v1: "floor_le (floor_of f1) (floor_of f1)" using s(3) by (rule floor_le_refl_right)
  from Cons.IH [OF ops v1]
  obtain vs g where r: "run ops f1 = Some (vs, g)" "error f1 \<longrightarrow> error g"
    "\<forall>v \<in> set vs. floor_le (floor_of f1) v" "sorted_wrt floor_le vs" by blast
  have up: "\<forall>v \<in> set vs. floor_le (floor_of f) v"
    using r(3) s(3) floor_le_trans by blast
  from s(4) show ?case
  proof
    assume "vo = None"
    then show ?thesis using s r up by simp
  next
    assume "vo = Some (floor_of f1)"
    then show ?thesis using s r up by simp
  qed
qed

lemma run_error:
  assumes "OpRetry \<notin> set ops" "error f"
  shows "\<exists>vs g. run ops f = Some (vs, g) \<and> error g \<and> (\<forall>v \<in> set vs. v = Fin 1)"
  using assms
proof (induction ops arbitrary: f)
  case Nil
  then show ?case by simp
next
  case (Cons op ops)
  then have op: "op \<noteq> OpRetry" and ops: "OpRetry \<notin> set ops" by auto
  have "floor_le (floor_of f) (floor_of f)" using Cons.prems(2) by (simp add: floor_of_def)
  from apply_op_step [OF op this]
  obtain vo f1 where s: "apply_op op f = Some (vo, f1)" "error f \<longrightarrow> error f1"
    "vo = None \<or> vo = Some (floor_of f1)" by blast
  then have e1: "error f1" using Cons.prems(2) by simp
  from Cons.IH [OF ops e1]
  obtain vs g where r: "run ops f1 = Some (vs, g)" "error g" "\<forall>v \<in> set vs. v = Fin 1" by blast
  from s(3) show ?case
  proof
    assume "vo = None"
    then show ?thesis using s r by simp
  next
    assume "vo = Some (floor_of f1)"
    then show ?thesis using s r e1 by (simp add: floor_of_def)
  qed
qed

section \<open>A chunk error fails the file\<close>

lemma bootstrap_Some_fields:
  "bootstrap f = Some f0 \<Longrightarrow> prevProgress f0 = Fin 0 \<and> \<not> error f0"
  using foldl_bootstrap_step
  by (auto simp: bootstrap_def Let_def split: jsnum.splits)

lemma abort_loop_nth:
  "j < length cs \<Longrightarrow>
   fst (abort_loop os cs) ! j =
     (if fst (status os (cs ! j)) = UPLOADING then chunk_abort (snd (status os (cs ! j)))
      else snd (status os (cs ! j)))"
proof (induction cs arbitrary: j)
  case Nil
  then show ?case by simp
next
  case (Cons c cs)
  show ?case
  proof (cases j)
    case 0
    then show ?thesis by (simp add: case_prod_beta Let_def)
  next
    case (Suc k)
    then show ?thesis using Cons by (simp add: case_prod_beta Let_def)
  qed
qed

lemma doneHandler_ERROR:
  assumes "i < length (chunks f)" "fst (status (opts f) (chunks f ! i)) = ERROR"
  shows "doneHandler i f = errorHandler (message (chunks f ! i)) (offset (chunks f ! i)) f"
proof -
  from status_result [of "opts f" "chunks f ! i"] assms(2)
  have "status (opts f) (chunks f ! i) = (ERROR, chunks f ! i)" by auto
  then show ?thesis
    by (simp add: doneHandler_def)
qed

text \<open>\<open>retry()\<close> gives the file its chunks anew, with no error and the floor at 0.\<close>

lemma retry_fields:
  assumes "0 < chunkSize (opts f)"
  shows "\<exists>f'. retry f = Some f' \<and>
           chunks f' = map (new_chunk (opts f) (fileSize f))
                           [0..<max (nat \<lceil>real (fileSize f) / real (chunkSize (opts f))\<rceil>) 1] \<and>
           \<not> error f' \<and> prevProgress f' = Fin 0 \<and> opts f' = opts f \<and> fileSize f' = fileSize f"
  using bootstrap_result [OF assms] by (auto simp: retry_def)

lemma upt_0_3: "[0..<3] = [0, 1, 2]"
  by (simp add: upt_rec [of 0 3] upt_rec [of 1 3] upt_rec [of 2 3] upt_rec [of "Suc 0" 3]
        upt_rec [of "Suc (Suc 0)" 3])

text \<open>
  C3, amended. When a chunk reports a chunk error (its request is done and its status
  is ERROR), the file runs its error handler: it fires the chunk error, aborts its
  chunks (every chunk whose status is UPLOADING loses its request), sets its error flag,
  discards the whole chunk array and fires a file error, in this order. A file in the
  error state stays in it under every sequence of operations without \<open>retry()\<close>, and
  every call of \<open>progress()\<close> in such a sequence returns 1.
\<close>

theorem chunk_error_fails_file:
  "(i < length (chunks f) \<and> fst (status (opts f) (chunks f ! i)) = ERROR \<longrightarrow>
      doneHandler i f = errorHandler (message (chunks f ! i)) (offset (chunks f ! i)) f) \<and>
   errorHandler msg off f =
      fire (FileError msg) ((file_abort (fire (ChunkError off msg) f))\<lparr>error := True, chunks := []\<rparr>) \<and>
   (\<forall>j < length (chunks f). fst (status (opts f) (chunks f ! j)) = UPLOADING \<longrightarrow>
        xhr (chunks (file_abort (fire (ChunkError off msg) f)) ! j) = None) \<and>
   error (errorHandler msg off f) \<and> chunks (errorHandler msg off f) = [] \<and>
   (events (errorHandler msg off f) = events f @ [ChunkError off msg, FileError msg] \<or>
    events (errorHandler msg off f) = events f @ [ChunkError off msg, FileProgress None, FileError msg]) \<and>
   (error g \<and> OpRetry \<notin> set ops \<longrightarrow>
      (\<exists>vs g'. run ops g = Some (vs, g') \<and> error g' \<and> (\<forall>v \<in> set vs. v = Fin 1)))"
proof (intro conjI)
  show "i < length (chunks f) \<and> fst (status (opts f) (chunks f ! i)) = ERROR \<longrightarrow>
      doneHandler i f = errorHandler (message (chunks f ! i)) (offset (chunks f ! i)) f"
    using doneHandler_ERROR by blast
  show "errorHandler msg off f =
      fire (FileError msg) ((file_abort (fire (ChunkError off msg) f))\<lparr>error := True, chunks := []\<rparr>)"
    by (simp add: errorHandler_def Let_def)
  show "\<forall>j < length (chunks f). fst (status (opts f) (chunks f ! j)) = UPLOADING \<longrightarrow>
        xhr (chunks (file_abort (fire (ChunkError off msg) f)) ! j) = None"
    by (simp add: abort_loop_nth chunk_abort_def)
  show "error (errorHandler msg off f)" by simp
  show "chunks (errorHandler msg off f) = []" by simp
  show "events (errorHandler msg off f) = events f @ [ChunkError off msg, FileError msg] \<or>
    events (errorHandler msg off f) = events f @ [ChunkError off msg, FileProgress None, FileError msg]"
    by (simp add: errorHandler_def Let_def file_abort_def case_prod_beta)
  show "error g \<and> OpRetry \<notin> set ops \<longrightarrow>
      (\<exists>vs g'. run ops g = Some (vs, g') \<and> error g' \<and> (\<forall>v \<in> set vs. v = Fin 1))"
    using run_error by blast
qed

theorem chunk_error_fails_file_witness:
  "doneHandler 0 example_failing_file = errorHandler [] 0 example_failing_file \<and>
   xhr (chunks (file_abort (fire (ChunkError 0 []) example_failing_file)) ! 1) = None \<and>
   error (errorHandler [] 0 example_failing_file) \<and>
   chunks (errorHandler [] 0 example_failing_file) = [] \<and>
   events (errorHandler [] 0 example_failing_file) =
     [ChunkingStart, ChunkError 0 [], FileProgress None, FileError []] \<and>
   (\<exists>vs g'. run [OpProgress, OpUpload, OpProgress] (errorHandler [] 0 example_failing_file) = Some (vs, g') \<and>
            error g' \<and> (\<forall>v \<in> set vs. v = Fin 1))"
proof -
  have e: "events (errorHandler [] 0 example_failing_file) =
     [ChunkingStart, ChunkError 0 [], FileProgress None, FileError []]"
    by (simp add: errorHandler_def Let_def file_abort_def case_prod_beta example_failing_file_def
          example_file_def status_def finished_chunk_def new_chunk_def default_options_def
          new_xhr_def fire_def chunk_abort_def)
  have s0: "fst (status (opts example_failing_file) (chunks example_failing_file ! 0)) = ERROR"
    by (simp add: example_failing_file_def example_file_def status_def finished_chunk_def
          new_chunk_def default_options_def)
  have s1: "fst (status (opts example_failing_file) (chunks example_failing_file ! 1)) = UPLOADING"
    by (simp add: example_failing_file_def example_file_def status_def
          new_chunk_def default_options_def new_xhr_def)
  have m: "message (chunks example_failing_file ! 0) = [] \<and> offset (chunks example_failing_file ! 0) = 0
     \<and> length (chunks example_failing_file) = 2"
    by (simp add: example_failing_file_def example_file_def message_def finished_chunk_def new_chunk_def)
  have l: "0 < length (chunks example_failing_file)" "1 < length (chunks example_failing_file)"
    using m by simp_all
  note T = chunk_error_fails_file [of 0 example_failing_file "[]" 0
         "errorHandler [] 0 example_failing_file" "[OpProgress, OpUpload, OpProgress]"]
  have c1: "doneHandler 0 example_failing_file = errorHandler [] 0 example_failing_file"
    using T [THEN conjunct1] l(1) s0 m by simp
  have c3: "xhr (chunks (file_abort (fire (ChunkError 0 []) example_failing_file)) ! 1) = None"
    using T [THEN conjunct2, THEN conjunct2, THEN conjunct1] l(2) s1 by blast
  have c4: "error (errorHandler [] 0 example_failing_file)"
    and c5: "chunks (errorHandler [] 0 example_failing_file) = []"
    by simp_all
  have c7: "\<exists>vs g'. run [OpProgress, OpUpload, OpProgress] (errorHandler [] 0 example_failing_file) = Some (vs, g') \<and>
            error g' \<and> (\<forall>v \<in> set vs. v = Fin 1)"
  proof (rule mp [OF T [THEN conjunct2, THEN conjunct2, THEN conjunct2, THEN conjunct2,
                        THEN conjunct2, THEN conjunct2]])
    show "error (errorHandler [] 0 example_failing_file) \<and>
          OpRetry \<notin> set [OpProgress, OpUpload, OpProgress]" by simp
  qed
  show ?thesis
    by (intro conjI; fact)
qed

text \<open>
  C3, as stated, fails: \<open>retry()\<close> is a call that can follow, it re-bootstraps the file
  and clears the error flag. Here a call of \<open>progress()\<close> on the failed file returns 1,
  and the call that follows \<open>retry()\<close> returns 0.
\<close>

theorem progress_restarts_after_retry_of_failed_file:
  "error (errorHandler [] 0 example_failing_file) \<and>
   (\<exists>g. run [OpProgress, OpRetry, OpProgress] (errorHandler [] 0 example_failing_file) =
          Some ([Fin 1, Fin 0], g))"
proof -
  let ?c0 = "new_chunk default_options 2621440 0"
  let ?c1 = "new_chunk default_options 2621440 1"
  let ?c2 = "new_chunk default_options 2621440 2"
  define e where "e = errorHandler [] 0 example_failing_file"
  have e: "error e" "opts e = default_options" "fileSize e = 2621440"
    by (simp_all add: e_def errorHandler_def Let_def example_failing_file_def example_file_def)
  have p1: "file_progress e = (Fin 1, e)" using e(1) by (rule file_progress_error)
  have "0 < chunkSize (opts e)" by (simp add: e default_options_def)
  from retry_fields [OF this]
  obtain f3 where f3: "retry e = Some f3"
    "chunks f3 = map (new_chunk (opts e) (fileSize e))
       [0..<max (nat \<lceil>real (fileSize e) / real (chunkSize (opts e))\<rceil>) 1]"
    "\<not> error f3" "prevProgress f3 = Fin 0" "opts f3 = opts e" by blast
  have n: "max (nat \<lceil>real (fileSize e) / real (chunkSize (opts e))\<rceil>) 1 = 3"
    by (simp add: e default_options_def)
  have "chunks f3 = map (new_chunk (opts e) (fileSize e)) [0, 1, 2]"
    using f3(2) by (simp only: n upt_0_3)
  then have cs3: "chunks f3 = [?c0, ?c1, ?c2]" by (simp add: e)
  have a3: "fst (aggregate f3) = Fin 0"
    by (simp add: aggregate_def cs3 f3(5) e status_def chunk_progress_def new_chunk_def
          default_options_def js_div_def)
  have v3: "fst (file_progress f3) = Fin 0"
    using file_progress_ok [OF f3(3)] a3 f3(4) by simp
  have "run [OpProgress, OpRetry, OpProgress] e = Some ([Fin 1, fst (file_progress f3)], snd (file_progress f3))"
    using f3(1) p1 by (simp add: case_prod_beta)
  then show ?thesis
    using e(1) v3 unfolding e_def by auto
qed

section \<open>The progress of a file never decreases\<close>

lemma markChunksCompleted_fields [simp]:
  "opts (markChunksCompleted n f) = opts f"
  "fileSize (markChunksCompleted n f) = fileSize f"
  by (simp_all add: markChunksCompleted_def)

lemma file_progress_fields [simp]:
  "opts (snd (file_progress f)) = opts f"
  "fileSize (snd (file_progress f)) = fileSize f"
  by (simp_all add: file_progress_def case_prod_beta Let_def)

text \<open>
  C6, amended. From a bootstrap on, a sequence of operations on the file without
  \<open>retry()\<close> returns, and the values of its calls of \<open>progress()\<close> never decrease.
  Outside the error state a call returns the maximum of the stored floor and the freshly
  computed aggregate and stores it as the new floor; in the error state it returns 1 and
  changes nothing.
\<close>

theorem progress_monotone:
  "(bootstrap f = Some f0 \<and> OpRetry \<notin> set ops \<longrightarrow>
      (\<exists>vs g. run ops f0 = Some (vs, g) \<and> sorted_wrt (\<lambda>a b. \<not> js_gt a b) vs)) \<and>
   (\<not> error h \<longrightarrow>
      fst (file_progress h) = js_max (prevProgress h) (fst (aggregate h)) \<and>
      prevProgress (snd (file_progress h)) = fst (file_progress h)) \<and>
   (error h \<longrightarrow> file_progress h = (Fin 1, h))"
proof (intro conjI impI)
  assume a: "bootstrap f = Some f0 \<and> OpRetry \<notin> set ops"
  then have "floor_le (floor_of f0) (floor_of f0)"
    using bootstrap_Some_fields [of f f0] by (simp add: floor_of_def)
  from run_floor [OF _ this, of ops] a
  obtain vs g where r: "run ops f0 = Some (vs, g)" "sorted_wrt floor_le vs" by blast
  have "sorted_wrt (\<lambda>a b. \<not> js_gt a b) vs"
    using r(2) by (rule sorted_wrt_mono_rel [rotated]) (simp add: floor_le_not_gt)
  then show "\<exists>vs g. run ops f0 = Some (vs, g) \<and> sorted_wrt (\<lambda>a b. \<not> js_gt a b) vs"
    using r(1) by blast
next
  assume "\<not> error h"
  from file_progress_ok [OF this]
  show "fst (file_progress h) = js_max (prevProgress h) (fst (aggregate h))"
    and "prevProgress (snd (file_progress h)) = fst (file_progress h)" by simp_all
next
  assume "error h"
  then show "file_progress h = (Fin 1, h)" by (rule file_progress_error)
qed

lemma example_bootstrap:
  "\<exists>f. bootstrap example_file = Some f \<and>
        chunks f = [new_chunk default_options 2621440 0, new_chunk default_options 2621440 1,
                    new_chunk default_options 2621440 2] \<and>
        \<not> error f \<and> prevProgress f = Fin 0 \<and> opts f = default_options \<and> fileSize f = 2621440"
proof -
  have "0 < chunkSize (opts example_file)"
    by (simp add: example_file_def default_options_def)
  from bootstrap_result [OF this]
  obtain f where f: "bootstrap example_file = Some f"
    "chunks f = map (new_chunk (opts example_file) (fileSize example_file))
        [0..<max (nat \<lceil>real (fileSize example_file) / real (chunkSize (opts example_file))\<rceil>) 1]"
    "\<not> error f" "prevProgress f = Fin 0" "opts f = opts example_file"
    "fileSize f = fileSize example_file"
    by blast
  have n: "max (nat \<lceil>real (fileSize example_file) / real (chunkSize (opts example_file))\<rceil>) 1 = 3"
    by (simp add: example_file_def default_options_def)
  have o: "opts example_file = default_options" "fileSize example_file = 2621440"
    by (simp_all add: example_file_def)
  have "chunks f = map (new_chunk (opts example_file) (fileSize example_file)) [0, 1, 2]"
    using f(2) by (simp only: n upt_0_3)
  then have cs: "chunks f = map (new_chunk default_options 2621440) [0, 1, 2]"
    by (simp only: o)
  show ?thesis
    using f(1,3,4,5,6) cs o by simp
qed

theorem progress_monotone_witness:
  "\<exists>f vs g. bootstrap example_file = Some f \<and>
     run [OpMarkChunksCompleted 2, OpProgress, OpAbort, OpUpload, OpProgress] f = Some (vs, g) \<and>
     sorted_wrt (\<lambda>a b. \<not> js_gt a b) vs"
proof -
  from example_bootstrap obtain f where f: "bootstrap example_file = Some f" by blast
  have "bootstrap example_file = Some f \<and>
        OpRetry \<notin> set [OpMarkChunksCompleted 2, OpProgress, OpAbort, OpUpload, OpProgress]"
    using f by simp
  from progress_monotone [THEN conjunct1, THEN mp, OF this] f
  show ?thesis by blast
qed


lemma upt_0_2: "[0..<2] = [0, 1]"
  by (simp add: upt_rec [of 0 2] upt_rec [of 1 2] upt_rec [of "Suc 0" 2])

lemma aggregate_cong:
  "opts f = opts g \<Longrightarrow> chunks f = chunks g \<Longrightarrow> aggregate f = aggregate g"
  by (simp add: aggregate_def)

text \<open>
  C6, as stated, fails: \<open>retry()\<close> is an operation on the file, and it resets the floor.
  With two of three chunks marked complete \<open>progress()\<close> returns 0.8; after \<open>retry()\<close>
  it returns 0.
\<close>

theorem progress_decreases_after_retry:
  "\<exists>f g. bootstrap example_file = Some f \<and>
     run [OpMarkChunksCompleted 2, OpProgress, OpRetry, OpProgress] f = Some ([Fin (4 / 5), Fin 0], g) \<and>
     js_gt (Fin (4 / 5)) (Fin 0)"
proof -
  let ?c0 = "new_chunk default_options 2621440 0"
  let ?c1 = "new_chunk default_options 2621440 1"
  let ?c2 = "new_chunk default_options 2621440 2"
  from example_bootstrap obtain f where f: "bootstrap example_file = Some f"
    "chunks f = [?c0, ?c1, ?c2]" "\<not> error f" "prevProgress f = Fin 0"
    "opts f = default_options" "fileSize f = 2621440" by blast
  define f1 where "f1 = markChunksCompleted 2 f"
  have f1: "chunks f1 = [markComplete ?c0, markComplete ?c1, ?c2]" "\<not> error f1"
    "prevProgress f1 = Fin 0" "opts f1 = default_options" "fileSize f1 = 2621440"
    using f by (simp_all add: f1_def markChunksCompleted_def upt_0_2)
  have a1: "fst (aggregate f1) = Fin (4 / 5)"
    by (simp add: aggregate_def f1 status_def chunk_progress_def markComplete_def new_chunk_def
          default_options_def js_div_def)
  define f2 where "f2 = snd (file_progress f1)"
  have v1: "fst (file_progress f1) = Fin (4 / 5)"
    using file_progress_ok [OF f1(2)] a1 f1(3) by simp
  have f2: "opts f2 = default_options" "fileSize f2 = 2621440"
    using f1 by (simp_all add: f2_def)
  have "0 < chunkSize (opts f2)" by (simp add: f2 default_options_def)
  from retry_fields [OF this]
  obtain f3 where f3: "retry f2 = Some f3"
    "chunks f3 = map (new_chunk (opts f2) (fileSize f2))
       [0..<max (nat \<lceil>real (fileSize f2) / real (chunkSize (opts f2))\<rceil>) 1]"
    "\<not> error f3" "prevProgress f3 = Fin 0" "opts f3 = opts f2" by blast
  have n: "max (nat \<lceil>real (fileSize f2) / real (chunkSize (opts f2))\<rceil>) 1 = 3"
    by (simp add: f2 default_options_def)
  have "chunks f3 = map (new_chunk (opts f2) (fileSize f2)) [0, 1, 2]"
    using f3(2) by (simp only: n upt_0_3)
  then have cs3: "chunks f3 = [?c0, ?c1, ?c2]" by (simp add: f2)
  have a3: "fst (aggregate f3) = Fin 0"
    by (simp add: aggregate_def cs3 f3(5) f2 status_def chunk_progress_def new_chunk_def
          default_options_def js_div_def)
  have v3: "fst (file_progress f3) = Fin 0"
    using file_progress_ok [OF f3(3)] a3 f3(4) by simp
  have "run [OpMarkChunksCompleted 2, OpProgress, OpRetry, OpProgress] f =
          Some ([fst (file_progress f1), fst (file_progress f3)], snd (file_progress f3))"
    using f3(1) by (simp add: f1_def [symmetric] f2_def [symmetric] case_prod_beta)
  then show ?thesis
    using f(1) v1 v3 by auto
qed

section \<open>Validation of a batch of files\<close>

lemma fire_signal_simps [simp]:
  "files (fire_signal e s) = files s"
  "fileCategories (fire_signal e s) = fileCategories s"
  "uncompletedFileCategories (fire_signal e s) = uncompletedFileCategories s"
  "fileTypes (fire_signal e s) = fileTypes s"
  "minFileSize (fire_signal e s) = minFileSize s"
  "maxFileSize (fire_signal e s) = maxFileSize s"
  "maxFiles (fire_signal e s) = maxFiles s"
  "validators (fire_signal e s) = validators s"
  "generateUniqueIdentifier (fire_signal e s) = generateUniqueIdentifier s"
  "r_opts (fire_signal e s) = r_opts s"
  "fired (fire_signal e s) = fired s @ [e]"
  by (simp_all add: fire_signal_def)

lemma foldl_fire_signal_simps [simp]:
  "files (foldl (\<lambda>t x. fire_signal (h x) t) s xs) = files s"
  "fileCategories (foldl (\<lambda>t x. fire_signal (h x) t) s xs) = fileCategories s"
  "uncompletedFileCategories (foldl (\<lambda>t x. fire_signal (h x) t) s xs) = uncompletedFileCategories s"
  "fileTypes (foldl (\<lambda>t x. fire_signal (h x) t) s xs) = fileTypes s"
  "minFileSize (foldl (\<lambda>t x. fire_signal (h x) t) s xs) = minFileSize s"
  "maxFileSize (foldl (\<lambda>t x. fire_signal (h x) t) s xs) = maxFileSize s"
  "maxFiles (foldl (\<lambda>t x. fire_signal (h x) t) s xs) = maxFiles s"
  "validators (foldl (\<lambda>t x. fire_signal (h x) t) s xs) = validators s"
  "r_opts (foldl (\<lambda>t x. fire_signal (h x) t) s xs) = r_opts s"
  "fired (foldl (\<lambda>t x. fire_signal (h x) t) s xs) = fired s @ map h xs"
  by (induction xs arbitrary: s; simp)+

lemma foldl_fire_signal_eq:
  "foldl (\<lambda>t x. fire_signal (h x) t) s xs = s\<lparr>fired := fired s @ map h xs\<rparr>"
  by (induction xs arbitrary: s) (simp_all add: fire_signal_def)

lemma validateFile_cong:
  assumes "files s = files t" "fileTypes s = fileTypes t" "minFileSize s = minFileSize t"
    "maxFileSize s = maxFileSize t" "validators s = validators t"
  shows "validateFile s cat file = validateFile t cat file"
  unfolding validateFile_def assms by (rule refl)

lemma validation_signals_cong:
  assumes "files s = files t" "fileTypes s = fileTypes t" "minFileSize s = minFileSize t"
    "maxFileSize s = maxFileSize t" "validators s = validators t"
  shows "validation_signals s cat fs = validation_signals t cat fs"
  unfolding validation_signals_def validateFile_cong [OF assms] by (rule refl)

lemma uniqBy_distinct:
  "distinct (map key xs) \<Longrightarrow> set (map key xs) \<inter> set seen = {} \<Longrightarrow> uniqBy key seen xs = (xs, [])"
  by (induction xs arbitrary: seen) auto

lemma filter_by_results:
  "map fst (filter snd (zip xs (map P xs))) = filter P xs"
  by (induction xs) auto

text \<open>
  An extension is in lower case, so the only members of \<open>Object.prototype\<close> that it can
  name are \<open>constructor\<close> and \<open>__proto__\<close>; the validation of a file throws exactly when its
  extension is \<open>__proto__\<close>, it passes the checks that come first, and \<open>validators\<close> holds
  no entry of its own under this key.
\<close>

lemma toLowerCase_lower:
  "c \<in> set (toLowerCase str) \<Longrightarrow> \<not> (65 \<le> (of_char c :: nat) \<and> (of_char c :: nat) \<le> 90)"
  by (auto simp: toLowerCase_def Let_def)

lemma fileExtension_inherited:
  assumes "fileExtension file \<in> set object_prototype_keys"
  shows "fileExtension file = ''constructor'' \<or> fileExtension file = ''__proto__''"
proof -
  have l: "\<not> (65 \<le> (of_char c :: nat) \<and> (of_char c :: nat) \<le> 90)"
    if "c \<in> set (fileExtension file)" for c
    using that toLowerCase_lower by (simp add: fileExtension_def)
  have n: "fileExtension file \<noteq> k" if "c \<in> set k" "65 \<le> (of_char c :: nat)" "(of_char c :: nat) \<le> 90"
    for c k
    using that l by blast
  have "fileExtension file \<noteq> ''__defineGetter__''"
    by (rule n [of "CHR ''G''"]) simp_all
  moreover have "fileExtension file \<noteq> ''__defineSetter__''"
    by (rule n [of "CHR ''S''"]) simp_all
  moreover have "fileExtension file \<noteq> ''hasOwnProperty''"
    by (rule n [of "CHR ''O''"]) simp_all
  moreover have "fileExtension file \<noteq> ''__lookupGetter__''"
    by (rule n [of "CHR ''G''"]) simp_all
  moreover have "fileExtension file \<noteq> ''__lookupSetter__''"
    by (rule n [of "CHR ''S''"]) simp_all
  moreover have "fileExtension file \<noteq> ''isPrototypeOf''"
    by (rule n [of "CHR ''P''"]) simp_all
  moreover have "fileExtension file \<noteq> ''propertyIsEnumerable''"
    by (rule n [of "CHR ''E''"]) simp_all
  moreover have "fileExtension file \<noteq> ''toString''"
    by (rule n [of "CHR ''S''"]) simp_all
  moreover have "fileExtension file \<noteq> ''valueOf''"
    by (rule n [of "CHR ''O''"]) simp_all
  moreover have "fileExtension file \<noteq> ''toLocaleString''"
    by (rule n [of "CHR ''L''"]) simp_all
  ultimately show ?thesis
    using assms by (simp add: object_prototype_keys_def)
qed

lemma validator_call:
  assumes "ext \<in> set object_prototype_keys \<Longrightarrow> ext = ''constructor'' \<or> ext = ''__proto__''"
  shows "(case get_property vs ext of
            Undefined \<Rightarrow> Inr None
          | Own v \<Rightarrow> if v fl cat then Inr None else Inr (Some Validation)
          | Inherited \<Rightarrow>
              (case call_inherited vs ext of
                 Throws \<Rightarrow> Inl TypeError
               | Returns b \<Rightarrow> if b then Inr None else Inr (Some Validation))) =
         (case vs ext of
            Some v \<Rightarrow> if v fl cat then Inr None else Inr (Some Validation)
          | None \<Rightarrow> if ext = ''__proto__'' then Inl TypeError else Inr None)"
proof (cases "vs ext")
  case (Some v)
  then show ?thesis by (simp add: get_property_def)
next
  case None
  have pk: "''__proto__'' \<in> set object_prototype_keys" "''constructor'' \<in> set object_prototype_keys"
    by (simp_all add: object_prototype_keys_def)
  have c: "call_inherited vs ''__proto__'' = Throws" "call_inherited vs ''constructor'' = Returns True"
    by (simp_all add: call_inherited_def)
  show ?thesis
  proof (cases "ext \<in> set object_prototype_keys")
    case True
    from assms [OF this] show ?thesis
    proof
      assume "ext = ''constructor''"
      then show ?thesis using None pk c by (simp add: get_property_def)
    next
      assume "ext = ''__proto__''"
      then show ?thesis using None pk c by (simp add: get_property_def)
    qed
  next
    case False
    then have "ext \<noteq> ''__proto__''" using pk by blast
    then show ?thesis using None False by (simp add: get_property_def)
  qed
qed

lemma validateFile_eq:
  "validateFile s cat file =
     (if \<exists>addedFile \<in> set (files s cat). uniqueIdentifier addedFile = ef_uniqueIdentifier file
        then Inr (Some Duplicate)
      else if fileTypes s cat \<noteq> [] \<and> \<not> (\<exists>ty \<in> set (fileTypes s cat). type_matches file ty)
        then Inr (Some FileType)
      else if (case minFileSize s of None \<Rightarrow> False | Some m \<Rightarrow> ef_size file < m)
        then Inr (Some MinFileSize)
      else if (case maxFileSize s of None \<Rightarrow> False | Some m \<Rightarrow> m < ef_size file)
        then Inr (Some MaxFileSize)
      else
        (case validators s (fileExtension file) of
           Some v \<Rightarrow> if v file cat then Inr None else Inr (Some Validation)
         | None \<Rightarrow> if fileExtension file = ''__proto__'' then Inl TypeError else Inr None))"
proof -
  note v = validator_call [where ext = "fileExtension file" and vs = "validators s"
             and fl = "file" and cat = cat, OF fileExtension_inherited]
  show ?thesis
    unfolding validateFile_def by (simp only: v)
qed

lemma validateFile_throws:
  "validateFile s cat file = Inl e \<longleftrightarrow>
     e = TypeError \<and>
     (\<forall>addedFile \<in> set (files s cat). uniqueIdentifier addedFile \<noteq> ef_uniqueIdentifier file) \<and>
     (fileTypes s cat = [] \<or> (\<exists>ty \<in> set (fileTypes s cat). type_matches file ty)) \<and>
     (\<forall>m. minFileSize s = Some m \<longrightarrow> m \<le> ef_size file) \<and>
     (\<forall>m. maxFileSize s = Some m \<longrightarrow> ef_size file \<le> m) \<and>
     fileExtension file = ''__proto__'' \<and> validators s (fileExtension file) = None"
  unfolding validateFile_eq by (auto split: option.splits)

lemma validateFile_passes:
  "validateFile s cat file = Inr None \<longleftrightarrow>
     (\<forall>addedFile \<in> set (files s cat). uniqueIdentifier addedFile \<noteq> ef_uniqueIdentifier file) \<and>
     (fileTypes s cat = [] \<or> (\<exists>ty \<in> set (fileTypes s cat). type_matches file ty)) \<and>
     (\<forall>m. minFileSize s = Some m \<longrightarrow> m \<le> ef_size file) \<and>
     (\<forall>m. maxFileSize s = Some m \<longrightarrow> ef_size file \<le> m) \<and>
     (\<forall>v. validators s (fileExtension file) = Some v \<longrightarrow> v file cat) \<and>
     (validators s (fileExtension file) = None \<longrightarrow> fileExtension file \<noteq> ''__proto__'')"
  unfolding validateFile_eq by (auto split: option.splits)

lemma validateFiles_known:
  assumes "cat \<in> set (fileCategories s)"
  shows "validateFiles s fs cat =
           (if \<exists>file \<in> set (fst (uniqBy ef_uniqueIdentifier [] fs)). isl (validateFile s cat file)
            then Inl TypeError
            else Inr (Some (map fst (filter snd (zip fs
                        (map (\<lambda>file. validateFile s cat file = Inr None)
                             (fst (uniqBy ef_uniqueIdentifier [] fs)))))),
                      s\<lparr>fired := fired s @
                          map (\<lambda>file. FileProcessingFailed (Some file) Duplicate cat)
                              (snd (uniqBy ef_uniqueIdentifier [] fs)) @
                          validation_signals s cat (fst (uniqBy ef_uniqueIdentifier [] fs))\<rparr>))"
proof -
  let ?s1 = "foldl (\<lambda>t file. fire_signal (FileProcessingFailed (Some file) Duplicate cat) t) s
               (snd (uniqBy ef_uniqueIdentifier [] fs))"
  have v: "validateFile ?s1 cat fl = validateFile s cat fl" for fl
    by (rule validateFile_cong) simp_all
  have g: "validation_signals ?s1 cat xs = validation_signals s cat xs" for xs
    by (rule validation_signals_cong) simp_all
  have e: "?s1 = s\<lparr>fired := fired s @ map (\<lambda>file. FileProcessingFailed (Some file) Duplicate cat)
                                       (snd (uniqBy ef_uniqueIdentifier [] fs))\<rparr>"
    by (rule foldl_fire_signal_eq)
  show ?thesis
    using assms
    by (simp add: validateFiles_def case_prod_beta Let_def v g comp_def, simp add: e)
qed

text \<open>
  For a known category, \<open>validateFiles\<close> filters the input list by the results computed
  over the deduplicated list, result \<open>i\<close> deciding input \<open>i\<close>. When the unique
  identifiers of the batch are pairwise distinct and no validation throws, the accepted
  list is the list of the input files that pass every check: not already added to the
  category, of an allowed type, not below the minimum size, not above the maximum size,
  accepted by the custom validator of their extension.
\<close>

lemma validateFiles_accepts:
  assumes "cat \<in> set (fileCategories s)" "distinct (map ef_uniqueIdentifier fs)"
    "\<forall>file \<in> set fs. validateFile s cat file \<noteq> Inl TypeError"
  shows "\<exists>s'. validateFiles s fs cat =
                Inr (Some (filter (\<lambda>file. validateFile s cat file = Inr None) fs), s')"
proof -
  have u: "uniqBy ef_uniqueIdentifier [] fs = (fs, [])"
    using assms(2) by (intro uniqBy_distinct) simp_all
  have "\<not> isl (validateFile s cat fl)" if "fl \<in> set fs" for fl
  proof (cases "validateFile s cat fl")
    case (Inl e)
    then have "e = TypeError" using validateFile_throws [of s cat fl e] by simp
    with Inl assms(3) that show ?thesis by auto
  next
    case (Inr v)
    then show ?thesis by simp
  qed
  then show ?thesis
    using validateFiles_known [OF assms(1), of fs] by (simp add: u filter_by_results)
qed

lemma validateFiles_accepts_example:
  "\<exists>s'. validateFiles example_Resumable
          [example_upload 4 ''a.mp4'' 0 ''0-amp4'', example_upload 2 ''b.mp4'' 7 ''7-bmp4''] ''default'' =
     Inr (Some [example_upload 2 ''b.mp4'' 7 ''7-bmp4''], s')"
proof -
  let ?a = "example_upload 4 ''a.mp4'' 0 ''0-amp4''"
  let ?b = "example_upload 2 ''b.mp4'' 7 ''7-bmp4''"
  have va: "validateFile example_Resumable ''default'' ?a = Inr (Some MinFileSize)"
    by (simp add: validateFile_def example_Resumable_def example_upload_def)
  have vb: "validateFile example_Resumable ''default'' ?b = Inr None"
    by (simp add: validateFile_def example_Resumable_def example_upload_def get_property_def
          fileExtension_def toLowerCase_def object_prototype_keys_def)
  have "''default'' \<in> set (fileCategories example_Resumable)"
    "distinct (map ef_uniqueIdentifier [?a, ?b])"
    "\<forall>file \<in> set [?a, ?b]. validateFile example_Resumable ''default'' file \<noteq> Inl TypeError"
    by (simp_all add: va vb) (simp_all add: example_Resumable_def example_upload_def)
  from validateFiles_accepts [OF this]
  show ?thesis by (simp add: va vb)
qed

text \<open>
  Without the precondition the results and the files can be out of step: here the first
  two files share an identifier, the first is too small, and the third, which passes
  every check, is dropped while the duplicate is accepted.
\<close>

lemma validateFiles_duplicates_misalign:
  "(\<exists>s'. validateFiles example_Resumable
          [example_upload 4 ''a.mp4'' 0 ''42'', example_upload 2 ''c.mp4'' 5 ''42'',
           example_upload 3 ''b.mp4'' 7 ''7-bmp4''] ''default'' =
     Inr (Some [example_upload 2 ''c.mp4'' 5 ''42''], s')) \<and>
   validateFile example_Resumable ''default'' (example_upload 3 ''b.mp4'' 7 ''7-bmp4'') = Inr None"
  by (simp add: validateFiles_def validateFile_def example_Resumable_def example_upload_def
        fire_signal_def get_property_def fileExtension_def toLowerCase_def
        object_prototype_keys_def)

text \<open>
  C10. The code does not do what the claim says for a file whose extension is
  \<open>__proto__\<close>: the batch of this one file has pairwise distinct identifiers, the file is
  not a duplicate, no type is required, its size is within the limits and no validator
  is registered, so the claim has it accepted; but \<open>'__proto__' in this.validators\<close> is
  true of the empty object, \<open>this.validators['__proto__']\<close> is \<open>Object.prototype\<close>, and
  calling it throws a \<open>TypeError\<close>: \<open>validateFiles\<close> returns no list.
\<close>

theorem validateFiles_throws_on_proto_extension:
  "validateFiles example_Resumable [example_upload 4 ''a.__proto__'' 7 ''7-a__proto__''] ''default'' =
     Inl TypeError"
  by (simp add: validateFiles_def validateFile_def example_Resumable_def example_upload_def
        fire_signal_def get_property_def call_inherited_def fileExtension_def toLowerCase_def
        object_prototype_keys_def)

section \<open>The limit on the number of files\<close>

lemma file_abort_identity [simp]:
  "fileName (file_abort f) = fileName f"
  "uniqueIdentifier (file_abort f) = uniqueIdentifier f"
  "fileCategory (file_abort f) = fileCategory f"
  by (simp_all add: file_abort_def Let_def case_prod_beta)

lemma chunkingComplete_identity [simp]:
  "fileName (chunkingComplete f) = fileName f"
  "uniqueIdentifier (chunkingComplete f) = uniqueIdentifier f"
  "fileCategory (chunkingComplete f) = fileCategory f"
proof -
  have "fileName (foldl (\<lambda>g x. fire (h x) g) f xs) = fileName f \<and>
        uniqueIdentifier (foldl (\<lambda>g x. fire (h x) g) f xs) = uniqueIdentifier f \<and>
        fileCategory (foldl (\<lambda>g x. fire (h x) g) f xs) = fileCategory f" for h :: "nat \<Rightarrow> file_event" and f xs
    by (induction xs arbitrary: f) simp_all
  then show "fileName (chunkingComplete f) = fileName f"
    "uniqueIdentifier (chunkingComplete f) = uniqueIdentifier f"
    "fileCategory (chunkingComplete f) = fileCategory f"
    by (simp_all add: chunkingComplete_def Let_def)
qed


















section \<open>Completion of categories and of the upload\<close>









text \<open>
  A category named like a member of \<open>Object.prototype\<close> gets no entry: it is not a
  category of the instance, and a batch for it passes the first test of
  \<open>appendFilesFromFileList\<close> and makes it throw.
\<close>

lemma inherited_key_is_no_category:
  "new_Resumable [''constructor''] (Some ''default'') example_Resumable = Inr example_Resumable \<and>
   appendFilesFromFileList example_Resumable [example_upload 4 ''a.mp4'' 5 []] ''constructor'' =
     Inl TypeError"
  by (simp add: new_Resumable_def init_categories_def object_prototype_keys_def
        example_Resumable_def appendFilesFromFileList_def files_property_def get_property_def
        getFilesOfAllCategories_def append_validated_def validateFiles_def)

lemma every_complete_length [simp]: "length (snd (every_complete fs)) = length fs"
  by (induction fs) (auto simp: case_prod_beta Let_def)























end
